theory Spec2Isabelle
  imports Main
begin

section \<open>Values of a parsed configuration document\<close>

text \<open>
  The script \<^verbatim>\<open>scripts/yaml-to-tfvars.py\<close> works on the untyped tree that
  \<^verbatim>\<open>yaml.safe_load\<close> returns. The tree is modelled by the datatype \<open>pyval\<close>:
  \<^item> \<open>VNone\<close>, \<open>VBool\<close>, \<open>VInt\<close> (Python's unbounded integers) and \<open>VStr\<close> are what they
    are in Python; a \<open>string\<close> is the list of the characters of the Python string;
  \<^item> \<open>VFloat nz s\<close> is a float. The script observes a float in two ways only: its
    truth value (\<open>nz\<close>: the float is not zero) and its \<^verbatim>\<open>str()\<close> text (\<open>s\<close>);
    floating-point arithmetic itself is not modelled;
  \<^item> \<open>VList\<close> is a list;
  \<^item> \<open>VDict\<close> is a dict, as the list of its items in insertion order. A key is a
    string (\<open>KStr\<close>) or any other scalar, kept as its \<^verbatim>\<open>str()\<close> text (\<open>KOther\<close>);
    a lookup by a string literal finds \<open>KStr\<close> keys only. The keys of a Python dict are
    distinct; no theorem below needs that assumption;
  \<^item> \<open>VOther k t s\<close> is a value of one of the remaining scalar types of the loader
    (\<open>Bytes\<close> for \<^verbatim>\<open>!!binary\<close>, \<open>Timestamp\<close> for dates), with its truth value \<open>t\<close> and
    its \<^verbatim>\<open>str()\<close> text \<open>s\<close>.
  Limits of the interpreter (recursion depth, the digit limit of integer conversion) are
  not modelled.
\<close>

datatype other_kind = Bytes | Timestamp

datatype pykey = KStr string | KOther string

datatype pyval =
    VNone
  | VBool bool
  | VInt int
  | VFloat bool string
  | VStr string
  | VList "pyval list"
  | VDict "(pykey \<times> pyval) list"
  | VOther other_kind bool string

text \<open>The exceptions that the operations used by the script can raise.\<close>

datatype py_error = AttributeError | TypeError | KeyError | OtherException

text \<open>Sequencing of statements that may raise: the first exception ends the run.\<close>

fun ebind :: "'e + 'a \<Rightarrow> ('a \<Rightarrow> 'e + 'b) \<Rightarrow> 'e + 'b" where
  "ebind (Inl e) f = Inl e"
| "ebind (Inr x) f = f x"

subsection \<open>The Python operations the script uses\<close>

text \<open>Truth value of a value in a condition (\<^verbatim>\<open>if v:\<close>, \<^verbatim>\<open>not v\<close>).\<close>

fun truthy :: "pyval \<Rightarrow> bool" where
  "truthy VNone = False"
| "truthy (VBool b) = b"
| "truthy (VInt i) = (i \<noteq> 0)"
| "truthy (VFloat nz s) = nz"
| "truthy (VStr s) = (s \<noteq> [])"
| "truthy (VList xs) = (xs \<noteq> [])"
| "truthy (VDict d) = (d \<noteq> [])"
| "truthy (VOther k t s) = t"

text \<open>\<^verbatim>\<open>str(k)\<close> of a dict key, as an f-string formats it.\<close>

fun key_str :: "pykey \<Rightarrow> string" where
  "key_str (KStr s) = s"
| "key_str (KOther t) = t"

text \<open>\<^verbatim>\<open>str(i)\<close> of an integer: decimal digits, with a minus sign when negative.\<close>

definition digit_char :: "nat \<Rightarrow> char" where
  "digit_char d = char_of (48 + d)"

function str_nat :: "nat \<Rightarrow> string" where
  "str_nat n = (if n < 10 then [digit_char n] else str_nat (n div 10) @ [digit_char (n mod 10)])"
  by pat_completeness auto
termination
  by (relation "measure id") auto

declare str_nat.simps [simp del]

definition str_int :: "int \<Rightarrow> string" where
  "str_int i = (if i < 0 then CHR ''-'' # str_nat (nat (- i)) else str_nat (nat i))"

text \<open>\<^verbatim>\<open>sep.join(xs)\<close>.\<close>

fun join :: "string \<Rightarrow> string list \<Rightarrow> string" where
  "join sep [] = []"
| "join sep [x] = x"
| "join sep (x # y # ys) = x @ sep @ join sep (y # ys)"

text \<open>\<^verbatim>\<open>s.replace(old, new)\<close> for a pattern \<open>old\<close> of one character.\<close>

primrec replace_char :: "char \<Rightarrow> string \<Rightarrow> string \<Rightarrow> string" where
  "replace_char old new [] = []"
| "replace_char old new (c # cs) = (if c = old then new else [c]) @ replace_char old new cs"

text \<open>\<^verbatim>\<open>s.endswith(suf)\<close> and \<^verbatim>\<open>k in s\<close> on strings.\<close>

definition ends_with :: "string \<Rightarrow> string \<Rightarrow> bool" where
  "ends_with s suf = (length suf \<le> length s \<and> drop (length s - length suf) s = suf)"

fun is_substring :: "string \<Rightarrow> string \<Rightarrow> bool" where
  "is_substring k [] = (k = [])"
| "is_substring k (c # cs) = (take (length k) (c # cs) = k \<or> is_substring k cs)"

text \<open>
  \<^verbatim>\<open>k in obj\<close> for a string literal \<open>k\<close>: key membership on a dict, element membership
  on a list, substring test on a string, TypeError on everything else.
\<close>

fun py_in :: "string \<Rightarrow> pyval \<Rightarrow> py_error + bool" where
  "py_in k (VDict d) = Inr (map_of d (KStr k) \<noteq> None)"
| "py_in k (VList xs) = Inr (VStr k \<in> set xs)"
| "py_in k (VStr s) = Inr (is_substring k s)"
| "py_in k _ = Inl TypeError"

text \<open>\<^verbatim>\<open>obj[k]\<close> for a string literal \<open>k\<close>.\<close>

fun py_getitem :: "pyval \<Rightarrow> string \<Rightarrow> py_error + pyval" where
  "py_getitem (VDict d) k = (case map_of d (KStr k) of None \<Rightarrow> Inl KeyError | Some v \<Rightarrow> Inr v)"
| "py_getitem _ k = Inl TypeError"

text \<open>\<^verbatim>\<open>obj.get(k, default)\<close>: only a dict has the method.\<close>

fun py_get :: "pyval \<Rightarrow> string \<Rightarrow> pyval \<Rightarrow> py_error + pyval" where
  "py_get (VDict d) k dflt = Inr (case map_of d (KStr k) of None \<Rightarrow> dflt | Some v \<Rightarrow> v)"
| "py_get _ k dflt = Inl AttributeError"

text \<open>
  \<^verbatim>\<open>obj.endswith(suf)\<close> for a string literal \<open>suf\<close>: a str answers, bytes refuse a str
  argument, no other type has the method.
\<close>

fun py_endswith :: "pyval \<Rightarrow> string \<Rightarrow> py_error + bool" where
  "py_endswith (VStr s) suf = Inr (ends_with s suf)"
| "py_endswith (VOther Bytes t s) suf = Inl TypeError"
| "py_endswith _ suf = Inl AttributeError"

section \<open>The value serializer\<close>

text \<open>
  \<^verbatim>\<open>to_hcl_value(value, indent=0)\<close>, branch by branch. \<open>CHR 0x22\<close> is the double quote,
  \<open>CHR 0x5C\<close> the backslash and \<open>CHR 0x0A\<close> the line feed.
\<close>

fun to_hcl_value :: "pyval \<Rightarrow> nat \<Rightarrow> string" where
  "to_hcl_value VNone indent = [CHR 0x22, CHR 0x22]"
| "to_hcl_value (VBool b) indent = (if b then ''true'' else ''false'')"
| "to_hcl_value (VInt i) indent = str_int i"
| "to_hcl_value (VFloat nz s) indent = s"
| "to_hcl_value (VStr s) indent =
     [CHR 0x22]
     @ replace_char (CHR 0x22) [CHR 0x5C, CHR 0x22]
         (replace_char (CHR 0x5C) [CHR 0x5C, CHR 0x5C] s)
     @ [CHR 0x22]"
| "to_hcl_value (VList xs) indent =
     (if xs = [] then ''[]''
      else ''['' @ join '', '' (map (\<lambda>item. to_hcl_value item (indent + 2)) xs) @ '']'')"
| "to_hcl_value (VDict d) indent =
     (if d = [] then ''{}''
      else ''{'' @ [CHR 0x0A]
        @ join [CHR 0x0A]
            (map (\<lambda>(k, v). replicate (indent + 2) CHR '' '' @ key_str k @ '' = ''
                              @ to_hcl_value v (indent + 2)) d)
        @ [CHR 0x0A] @ replicate indent CHR '' '' @ ''}'')"
| "to_hcl_value (VOther k t s) indent = [CHR 0x22] @ s @ [CHR 0x22]"

section \<open>The config validator\<close>

text \<open>The test of the loop over the required fields.\<close>

definition is_placeholder :: "pyval \<Rightarrow> bool" where
  "is_placeholder v = (\<not> truthy v \<or> v = VStr ''CHANGEME'' \<or> v = VStr ''CHANGEME/32'')"

text \<open>The loop \<^verbatim>\<open>for path, value in required\<close>, appending to \<open>errors\<close>.\<close>

fun check_required :: "(string \<times> pyval) list \<Rightarrow> string list \<Rightarrow> string list" where
  "check_required [] errors = errors"
| "check_required ((path, v) # rest) errors =
     check_required rest
       (if is_placeholder v then errors @ [''  - '' @ path @ '': not set or still CHANGEME'']
        else errors)"

definition default_names :: "string list" where
  "default_names = [''admin'', ''root'', ''azureuser'', ''ubuntu'', ''administrator'']"

text \<open>
  \<^verbatim>\<open>validate_config(config)\<close>: the returned list of problems, or the exception that
  ends the call.
\<close>

definition validate_config :: "pyval \<Rightarrow> py_error + string list" where
  "validate_config config =
     ebind (py_get config ''ssh'' (VDict [])) (\<lambda>s1.
     ebind (py_get s1 ''admin_username'' VNone) (\<lambda>user.
     ebind (py_get config ''ssh'' (VDict [])) (\<lambda>s2.
     ebind (py_get s2 ''allowed_ipv4'' VNone) (\<lambda>ip.
     let errors1 = check_required [(''ssh.admin_username'', user), (''ssh.allowed_ipv4'', ip)] []
     in
     ebind (py_get config ''ssh'' (VDict [])) (\<lambda>ssh.
     ebind (py_get ssh ''admin_username'' VNone) (\<lambda>u.
     let errors2 =
       (if u \<in> set (map VStr default_names)
        then errors1 @ [''  - ssh.admin_username: cannot be a common default name'']
        else errors1)
     in
     ebind (py_get ssh ''allowed_ipv4'' VNone) (\<lambda>a.
     ebind (if truthy a
            then ebind (py_getitem ssh ''allowed_ipv4'') (\<lambda>a'.
                 ebind (py_endswith a' ''/32'') (\<lambda>e. Inr (\<not> e)))
            else Inr False) (\<lambda>bad.
     Inr (if bad then errors2 @ [''  - ssh.allowed_ipv4: must end with /32''] else errors2)
     ))))))))"

section \<open>The converter\<close>

definition comment_header :: "string list" where
  "comment_header =
     [''# Auto-generated from config.yml'',
      ''# Do not edit directly - modify config.yml instead'',
      ''#'',
      ''# Only infrastructure variables are included here.'',
      ''# Application config (WireGuard, Caddy, etc.) is handled by Ansible.'']"

definition assignment :: "string \<Rightarrow> pyval \<Rightarrow> string" where
  "assignment name v = name @ '' = '' @ to_hcl_value v 0"

definition emit_if_truthy :: "pyval \<Rightarrow> string \<Rightarrow> string \<Rightarrow> string list \<Rightarrow> py_error + string list" where
  "emit_if_truthy grp key name lines =
     ebind (py_get grp key VNone) (\<lambda>c.
       if truthy c
       then ebind (py_getitem grp key) (\<lambda>v. Inr (lines @ [assignment name v]))
       else Inr lines)"

definition emit_if_present :: "pyval \<Rightarrow> string \<Rightarrow> string \<Rightarrow> string list \<Rightarrow> py_error + string list" where
  "emit_if_present grp key name lines =
     ebind (py_in key grp) (\<lambda>c.
       if c
       then ebind (py_getitem grp key) (\<lambda>v. Inr (lines @ [assignment name v]))
       else Inr lines)"

definition azure_section :: "pyval \<Rightarrow> string list \<Rightarrow> py_error + string list" where
  "azure_section config lines =
     ebind (py_in ''azure'' config) (\<lambda>c.
       if c
       then ebind (py_getitem config ''azure'') (\<lambda>azure.
            ebind (emit_if_truthy azure ''location'' ''location'' lines) (\<lambda>l1.
            ebind (emit_if_truthy azure ''resource_group'' ''resource_group_name'' l1) (\<lambda>l2.
            ebind (emit_if_truthy azure ''vm_size'' ''vm_size'' l2) (\<lambda>l3.
            ebind (emit_if_present azure ''use_static_ip'' ''use_static_ip'' l3) (\<lambda>l4.
            ebind (emit_if_truthy azure ''availability_zones'' ''availability_zones'' l4) (\<lambda>l5.
            Inr (l5 @ [''''])))))))
       else Inr lines)"

definition ssh_section :: "pyval \<Rightarrow> string list \<Rightarrow> py_error + string list" where
  "ssh_section config lines =
     ebind (py_in ''ssh'' config) (\<lambda>c.
       if c
       then ebind (py_getitem config ''ssh'') (\<lambda>ssh.
            ebind (emit_if_truthy ssh ''admin_username'' ''admin_username'' lines) (\<lambda>l1.
            ebind (emit_if_truthy ssh ''public_key_path'' ''ssh_public_key_path'' l1) (\<lambda>l2.
            ebind (emit_if_truthy ssh ''allowed_ipv4'' ''allowed_ssh_ipv4'' l2) (\<lambda>l3.
            ebind (emit_if_present ssh ''allowed_ipv6'' ''allowed_ssh_ipv6'' l3) (\<lambda>l4.
            Inr (l4 @ ['''']))))))
       else Inr lines)"

definition network_section :: "pyval \<Rightarrow> string list \<Rightarrow> py_error + string list" where
  "network_section config lines =
     ebind (py_in ''network'' config) (\<lambda>c.
       if c
       then ebind (py_getitem config ''network'') (\<lambda>net.
            ebind (emit_if_truthy net ''vnet_address_space'' ''vnet_address_space'' lines) (\<lambda>l1.
            ebind (emit_if_truthy net ''subnet_address'' ''subnet_address'' l1) (\<lambda>l2.
            Inr (l2 @ ['''']))))
       else Inr lines)"

definition wireguard_section :: "pyval \<Rightarrow> string list \<Rightarrow> py_error + string list" where
  "wireguard_section config lines =
     ebind (py_in ''wireguard'' config) (\<lambda>c.
       if c
       then ebind (py_getitem config ''wireguard'') (\<lambda>wg.
            ebind (emit_if_truthy wg ''port'' ''wireguard_port'' lines) (\<lambda>l1.
            Inr (l1 @ [''''])))
       else Inr lines)"

definition tags_section :: "pyval \<Rightarrow> string list \<Rightarrow> py_error + string list" where
  "tags_section config lines =
     ebind (py_in ''tags'' config) (\<lambda>c.
       if c
       then ebind (py_getitem config ''tags'') (\<lambda>tags.
            Inr (lines @ [assignment ''tags'' tags] @ ['''']))
       else Inr lines)"

definition yaml_to_tfvars_lines :: "pyval \<Rightarrow> py_error + string list" where
  "yaml_to_tfvars_lines config =
     ebind (azure_section config (comment_header @ [''''])) (\<lambda>l1.
     ebind (ssh_section config l1) (\<lambda>l2.
     ebind (network_section config l2) (\<lambda>l3.
     ebind (wireguard_section config l3) (\<lambda>l4.
     tags_section config l4))))"

definition yaml_to_tfvars :: "pyval \<Rightarrow> py_error + string" where
  "yaml_to_tfvars config =
     ebind (yaml_to_tfvars_lines config) (\<lambda>lines. Inr (join [CHR 0x0A] lines))"

section \<open>The driver\<close>

text \<open>
  The script as a function of what its environment answers:
  \<^item> \<open>yaml_installed\<close>: whether \<^verbatim>\<open>import yaml\<close> (line 18) succeeds;
  \<^item> \<open>cmdline\<close>: what \<^verbatim>\<open>parser.parse_args()\<close> (line 154) does with the command line. It
    returns the namespace \<open>args\<close> (\<open>output_file\<close> is \<^verbatim>\<open>args.output\<close>), or it ends the
    process itself, with \<^verbatim>\<open>sys.exit(2)\<close> on a command line that it rejects and with
    \<^verbatim>\<open>sys.exit(0)\<close> after \<^verbatim>\<open>--help\<close>, or another exception leaves it. The usage and help
    texts that \<^verbatim>\<open>argparse\<close> writes are not recorded;
  \<^item> \<open>load\<close>: the outcome of opening and loading the input file (lines 158-159): one of the
    two exceptions that \<^verbatim>\<open>main\<close> catches, any other exception, or the loaded document;
  \<^item> \<open>stdout_ok s\<close> and \<open>stderr_ok s\<close>: whether \<^verbatim>\<open>print\<close> of the text \<open>s\<close> to that stream
    returns; it raises otherwise, for instance when the stream cannot encode the text or
    cannot be written to. No text is printed twice to one stream in a run;
  \<^item> \<open>file_ok path s\<close>: whether opening \<open>path\<close> for writing, writing \<open>s\<close> and closing the
    file (lines 186-187) all succeed; one of them raises otherwise;
  \<^item> \<open>flush_ok\<close>: whether the interpreter can flush the standard streams when it exits.
  An \<open>io\<close> records what was printed to the two streams (one entry for each \<^verbatim>\<open>print\<close> that
  returned) and the file written (path and content, for a write that succeeded). A \<open>run\<close>
  adds how the script ended: by running to its end, by \<^verbatim>\<open>sys.exit(n)\<close>, or by an exception
  that nothing catches. The traceback that the interpreter prints for an uncaught
  exception is not part of \<open>stderr\<close> here.
  Each statement of \<^verbatim>\<open>main\<close> maps the \<open>io\<close> so far to the \<open>io\<close> after it (\<open>Inr\<close>) or to the
  \<open>run\<close> that it ends (\<open>Inl\<close>); \<open>ebind\<close> puts statements in sequence.
  \<open>exit_status\<close> is the exit status of the interpreter: 0 after the script ran to its
  end, \<open>n\<close> after \<^verbatim>\<open>sys.exit(n)\<close>, 1 after an uncaught exception, and 120 in all three
  cases when the final flush of the standard streams fails.
\<close>

record args =
  config_file :: string
  output_file :: "string option"
  validate :: bool

datatype parse_result = Parsed args | UsageError | HelpRequested | ParseRaised

datatype load_result = FileNotFoundError | YAMLError string | OtherLoadError | Loaded pyval

record env =
  yaml_installed :: bool
  cmdline :: parse_result
  load :: load_result
  stdout_ok :: "string \<Rightarrow> bool"
  stderr_ok :: "string \<Rightarrow> bool"
  file_ok :: "string \<Rightarrow> string \<Rightarrow> bool"
  flush_ok :: bool

datatype outcome = Returned | SysExit int | Uncaught py_error

record io =
  stdout :: "string list"
  stderr :: "string list"
  written :: "(string \<times> string) option"

record run = io +
  status :: outcome

definition start :: io where
  "start = \<lparr>stdout = [], stderr = [], written = None\<rparr>"

definition ended :: "io \<Rightarrow> outcome \<Rightarrow> run" where
  "ended i s = \<lparr>stdout = stdout i, stderr = stderr i, written = written i, status = s\<rparr>"

fun finish :: "run + io \<Rightarrow> run" where
  "finish (Inl r) = r"
| "finish (Inr i) = ended i Returned"

definition raise :: "py_error \<Rightarrow> io \<Rightarrow> run + io" where
  "raise ex i = Inl (ended i (Uncaught ex))"

definition sys_exit :: "int \<Rightarrow> io \<Rightarrow> run + io" where
  "sys_exit n i = Inl (ended i (SysExit n))"

definition print_stdout :: "env \<Rightarrow> string \<Rightarrow> io \<Rightarrow> run + io" where
  "print_stdout e s i =
     (if stdout_ok e s then Inr (i\<lparr>stdout := stdout i @ [s]\<rparr>) else raise OtherException i)"

definition print_stderr :: "env \<Rightarrow> string \<Rightarrow> io \<Rightarrow> run + io" where
  "print_stderr e s i =
     (if stderr_ok e s then Inr (i\<lparr>stderr := stderr i @ [s]\<rparr>) else raise OtherException i)"

definition write_file :: "env \<Rightarrow> string \<Rightarrow> string \<Rightarrow> io \<Rightarrow> run + io" where
  "write_file e path s i =
     (if file_ok e path s then Inr (i\<lparr>written := Some (path, s)\<rparr>) else raise OtherException i)"

fun print_each :: "env \<Rightarrow> string list \<Rightarrow> io \<Rightarrow> run + io" where
  "print_each e [] i = Inr i"
| "print_each e (error # errors) i = ebind (print_stderr e error i) (print_each e errors)"

definition write_output :: "args \<Rightarrow> env \<Rightarrow> string \<Rightarrow> io \<Rightarrow> run + io" where
  "write_output a e tfvars i =
     (case output_file a of
        None \<Rightarrow> print_stdout e tfvars i
      | Some path \<Rightarrow>
          if path = [] then print_stdout e tfvars i
          else ebind (write_file e path tfvars i) (print_stderr e (''Generated: '' @ path)))"

definition convert :: "args \<Rightarrow> env \<Rightarrow> pyval \<Rightarrow> io \<Rightarrow> run + io" where
  "convert a e config i =
     (case yaml_to_tfvars config of
        Inl ex \<Rightarrow> raise ex i
      | Inr tfvars \<Rightarrow> write_output a e tfvars i)"

definition main :: "env \<Rightarrow> run" where
  "main e = finish
     (case cmdline e of
        UsageError \<Rightarrow> sys_exit 2 start
      | HelpRequested \<Rightarrow> sys_exit 0 start
      | ParseRaised \<Rightarrow> raise OtherException start
      | Parsed a \<Rightarrow>
         (case load e of
            FileNotFoundError \<Rightarrow>
              ebind (print_stderr e (''Error: Config file not found: '' @ config_file a) start)
                (\<lambda>i. ebind (print_stderr e
                               ''Copy config.yml.example to config.yml and customize it.'' i)
                  (sys_exit 1))
          | YAMLError msg \<Rightarrow>
              ebind (print_stderr e (''Error parsing YAML: '' @ msg) start) (sys_exit 1)
          | OtherLoadError \<Rightarrow> raise OtherException start
          | Loaded config \<Rightarrow>
              (case validate_config config of
                 Inl ex \<Rightarrow> raise ex start
               | Inr errors \<Rightarrow>
                   if errors \<noteq> []
                   then ebind (print_stderr e ''Configuration errors:'' start)
                     (\<lambda>i. ebind (print_each e errors i)
                       (\<lambda>i. if validate a then sys_exit 1 i
                            else ebind
                              (print_stderr e
                                (CHR 0x0A # ''Continuing anyway (Terraform will also validate)...'') i)
                              (convert a e config)))
                   else if validate a
                   then ebind (print_stdout e ''Configuration is valid.'' start) (sys_exit 0)
                   else convert a e config start)))"

definition script :: "env \<Rightarrow> run" where
  "script e =
     (if yaml_installed e then main e
      else finish
        (ebind (print_stderr e ''Error: PyYAML not installed. Run: pip install pyyaml'' start)
           (sys_exit 1)))"

definition exit_status :: "env \<Rightarrow> run \<Rightarrow> int" where
  "exit_status e r =
     (if flush_ok e
      then (case status r of Returned \<Rightarrow> 0 | SysExit n \<Rightarrow> n | Uncaught ex \<Rightarrow> 1)
      else 120)"

section \<open>Reference notions used to state the properties\<close>

text \<open>
  The field at a path of keys in a document: \<open>None\<close> when a key on the way is absent or
  the value reached on the way is not a dict.
\<close>

fun lookup_path :: "pyval \<Rightarrow> string list \<Rightarrow> pyval option" where
  "lookup_path v [] = Some v"
| "lookup_path (VDict d) (k # ks) =
     (case map_of d (KStr k) of None \<Rightarrow> None | Some w \<Rightarrow> lookup_path w ks)"
| "lookup_path _ (k # ks) = None"

fun is_str :: "pyval \<Rightarrow> bool" where
  "is_str (VStr s) = True"
| "is_str _ = False"

text \<open>
  The documents on which the validator returns: a mapping whose \<open>ssh\<close> group is absent or
  a mapping, and whose \<open>ssh.allowed_ipv4\<close>, when present, is a string or a falsy value.
\<close>

definition validator_input_ok :: "pyval \<Rightarrow> bool" where
  "validator_input_ok config =
     (case config of
        VDict d \<Rightarrow>
          (case map_of d (KStr ''ssh'') of
             None \<Rightarrow> True
           | Some (VDict s) \<Rightarrow>
               (case map_of s (KStr ''allowed_ipv4'') of
                  None \<Rightarrow> True
                | Some a \<Rightarrow> is_str a \<or> \<not> truthy a)
           | Some _ \<Rightarrow> False)
      | _ \<Rightarrow> False)"

text \<open>
  The validator on a document whose \<open>ssh\<close> group is the dict \<open>s\<close> (the empty dict when the
  group is absent), with the three lookups of the group done once. It is a normal form of
  \<open>validate_config\<close>, proved equal to it in \<open>validate_config_ssh_dict\<close>.
\<close>

definition validate_ssh :: "(pykey \<times> pyval) list \<Rightarrow> py_error + string list" where
  "validate_ssh s =
    (let user = (case map_of s (KStr ''admin_username'') of None \<Rightarrow> VNone | Some w \<Rightarrow> w);
         ip = (case map_of s (KStr ''allowed_ipv4'') of None \<Rightarrow> VNone | Some w \<Rightarrow> w);
         errors1 = check_required [(''ssh.admin_username'', user), (''ssh.allowed_ipv4'', ip)] [];
         errors2 = (if user \<in> set (map VStr default_names)
                    then errors1 @ [''  - ssh.admin_username: cannot be a common default name'']
                    else errors1)
     in if truthy ip
        then ebind (py_endswith ip ''/32'') (\<lambda>e.
               Inr (if \<not> e then errors2 @ [''  - ssh.allowed_ipv4: must end with /32'']
                    else errors2))
        else Inr errors2)"

definition groups :: "string list" where
  "groups = [''azure'', ''ssh'', ''network'', ''wireguard'', ''tags'']"

definition whitelist :: "string list list" where
  "whitelist =
     [[''azure'', ''location''], [''azure'', ''resource_group''], [''azure'', ''vm_size''],
      [''azure'', ''use_static_ip''], [''azure'', ''availability_zones''],
      [''ssh'', ''admin_username''], [''ssh'', ''public_key_path''], [''ssh'', ''allowed_ipv4''],
      [''ssh'', ''allowed_ipv6''],
      [''network'', ''vnet_address_space''], [''network'', ''subnet_address''],
      [''wireguard'', ''port''],
      [''tags'']]"

definition emitted_name :: "string list \<Rightarrow> string" where
  "emitted_name p =
     (if p = [''azure'', ''resource_group''] then ''resource_group_name''
      else if p = [''ssh'', ''public_key_path''] then ''ssh_public_key_path''
      else if p = [''ssh'', ''allowed_ipv4''] then ''allowed_ssh_ipv4''
      else if p = [''ssh'', ''allowed_ipv6''] then ''allowed_ssh_ipv6''
      else if p = [''wireguard'', ''port''] then ''wireguard_port''
      else last p)"

definition emitted_by_presence :: "string list \<Rightarrow> bool" where
  "emitted_by_presence p =
     (p = [''azure'', ''use_static_ip''] \<or> p = [''ssh'', ''allowed_ipv6''] \<or> p = [''tags''])"

definition field_emitted :: "pyval \<Rightarrow> string list \<Rightarrow> bool" where
  "field_emitted doc p =
     (case lookup_path doc p of None \<Rightarrow> False | Some v \<Rightarrow> emitted_by_presence p \<or> truthy v)"

definition field_line :: "pyval \<Rightarrow> string list \<Rightarrow> string list" where
  "field_line doc p =
     (case lookup_path doc p of
        None \<Rightarrow> []
      | Some v \<Rightarrow> if field_emitted doc p then [emitted_name p @ '' = '' @ to_hcl_value v 0] else [])"

definition section_lines :: "pyval \<Rightarrow> string \<Rightarrow> string list" where
  "section_lines doc g = concat (map (field_line doc) (filter (\<lambda>p. hd p = g) whitelist))"

definition present_groups :: "pyval \<Rightarrow> string list" where
  "present_groups doc = filter (\<lambda>g. lookup_path doc [g] \<noteq> None) groups"

definition group_section :: "pyval \<Rightarrow> string \<Rightarrow> string list" where
  "group_section doc g =
     (if lookup_path doc [g] = None then [] else section_lines doc g @ [''''])"

fun is_dict :: "pyval \<Rightarrow> bool" where
  "is_dict (VDict d) = True"
| "is_dict _ = False"

definition group_ok :: "pyval \<Rightarrow> string \<Rightarrow> bool" where
  "group_ok doc g = (case lookup_path doc [g] of None \<Rightarrow> True | Some v \<Rightarrow> is_dict v)"

definition well_shaped :: "pyval \<Rightarrow> bool" where
  "well_shaped doc =
     (is_dict doc \<and> group_ok doc ''azure'' \<and> group_ok doc ''ssh'' \<and>
      group_ok doc ''network'' \<and> group_ok doc ''wireguard'')"

text \<open>
  The whitelisted part of a document: what is left when every key that the converter
  never looks up is removed. \<open>group_fields g\<close> are the whitelisted keys of the group \<open>g\<close>.
\<close>

fun key_in :: "pykey \<Rightarrow> string list \<Rightarrow> bool" where
  "key_in (KStr s) ks = (s \<in> set ks)"
| "key_in (KOther t) ks = False"

definition group_fields :: "string \<Rightarrow> string list" where
  "group_fields g = map last (filter (\<lambda>p. length p = 2 \<and> hd p = g) whitelist)"

fun restrict_group :: "string \<Rightarrow> pyval \<Rightarrow> pyval" where
  "restrict_group g (VDict a) = VDict (filter (\<lambda>(k, v). key_in k (group_fields g)) a)"
| "restrict_group g v = v"

fun whitelisted_part :: "pyval \<Rightarrow> pyval" where
  "whitelisted_part (VDict d) =
     VDict (map (\<lambda>(k, v). (k, if k = KStr ''tags'' then v else restrict_group (key_str k) v))
              (filter (\<lambda>(k, v). key_in k groups) d))"
| "whitelisted_part v = v"

declare whitelisted_part.simps [simp del]


text \<open>
  \<open>output_given\<close> is the test \<^verbatim>\<open>if args.output\<close>. \<open>output_raises\<close> holds when the last
  part of \<^verbatim>\<open>main\<close> (lines 182-190) raises: the converter raises, or the output file cannot
  be written, or the \<^verbatim>\<open>print\<close> that follows the writing, or the one of the converted
  text, raises. \<open>exception_escapes\<close> holds on the runs where an exception leaves the
  script uncaught: \<^verbatim>\<open>parse_args\<close> raises, the load raises something else than the two
  exceptions caught, the validator raises, the last part raises in normal mode, or one
  of the \<^verbatim>\<open>print\<close> calls on the way raises.
\<close>

definition output_given :: "args \<Rightarrow> bool" where
  "output_given a = (case output_file a of None \<Rightarrow> False | Some path \<Rightarrow> path \<noteq> [])"

definition output_raises :: "args \<Rightarrow> env \<Rightarrow> pyval \<Rightarrow> bool" where
  "output_raises a e config =
     (case yaml_to_tfvars config of
        Inl ex \<Rightarrow> True
      | Inr t \<Rightarrow>
          if output_given a
          then \<not> file_ok e (the (output_file a)) t
               \<or> \<not> stderr_ok e (''Generated: '' @ the (output_file a))
          else \<not> stdout_ok e t)"

definition exception_escapes :: "env \<Rightarrow> bool" where
  "exception_escapes e =
     (if \<not> yaml_installed e
      then \<not> stderr_ok e ''Error: PyYAML not installed. Run: pip install pyyaml''
      else case cmdline e of
        UsageError \<Rightarrow> False
      | HelpRequested \<Rightarrow> False
      | ParseRaised \<Rightarrow> True
      | Parsed a \<Rightarrow>
         (case load e of
            FileNotFoundError \<Rightarrow>
              \<not> stderr_ok e (''Error: Config file not found: '' @ config_file a)
              \<or> \<not> stderr_ok e ''Copy config.yml.example to config.yml and customize it.''
          | YAMLError msg \<Rightarrow> \<not> stderr_ok e (''Error parsing YAML: '' @ msg)
          | OtherLoadError \<Rightarrow> True
          | Loaded config \<Rightarrow>
              (case validate_config config of
                 Inl ex \<Rightarrow> True
               | Inr errors \<Rightarrow>
                   if errors \<noteq> []
                   then \<not> list_all (stderr_ok e) (''Configuration errors:'' # errors)
                        \<or> (\<not> validate a
                            \<and> (\<not> stderr_ok e
                                   (CHR 0x0A # ''Continuing anyway (Terraform will also validate)...'')
                               \<or> output_raises a e config))
                   else if validate a then \<not> stdout_ok e ''Configuration is valid.''
                   else output_raises a e config)))"

text \<open>
  \<open>all_ok\<close> is the environment in which PyYAML is installed, the command line is parsed to
  \<open>a\<close>, the load has the outcome \<open>l\<close>, and every print, the writing of the output file and
  the final flush succeed.
\<close>

definition all_ok :: "args \<Rightarrow> load_result \<Rightarrow> env" where
  "all_ok a l =
     \<lparr>yaml_installed = True, cmdline = Parsed a, load = l, stdout_ok = (\<lambda>s. True),
      stderr_ok = (\<lambda>s. True), file_ok = (\<lambda>path s. True), flush_ok = True\<rparr>"


subsection \<open>Reading a rendering back\<close>





















section \<open>Properties of the serializer\<close>

lemma replace_char_append:
  "replace_char old new (xs @ ys) = replace_char old new xs @ replace_char old new ys"
  by (induction xs) simp_all

lemma two_replaces:
  "replace_char (CHR 0x22) [CHR 0x5C, CHR 0x22] (replace_char (CHR 0x5C) [CHR 0x5C, CHR 0x5C] s)
   = concat (map (\<lambda>c. if c = CHR 0x5C then [CHR 0x5C, CHR 0x5C]
                        else if c = CHR 0x22 then [CHR 0x5C, CHR 0x22] else [c]) s)"
  by (induction s) (simp_all add: replace_char_append)

text \<open>
  Claim C5. The rendering of a string \<open>s\<close> is a double quote, then \<open>s\<close> with every
  backslash replaced by two backslashes and every double quote replaced by a backslash and
  a double quote, every other character standing as it is, then a double quote. The two
  successive \<^verbatim>\<open>replace\<close> calls of the source amount to this one pass over \<open>s\<close>.
\<close>

theorem string_rendering_escapes:
  "to_hcl_value (VStr s) indent =
     [CHR 0x22]
     @ concat (map (\<lambda>c. if c = CHR 0x5C then [CHR 0x5C, CHR 0x5C]
                          else if c = CHR 0x22 then [CHR 0x5C, CHR 0x22] else [c]) s)
     @ [CHR 0x22]"
  using two_replaces [of s] by simp

section \<open>Properties of the validator\<close>

lemma ebind_assoc: "ebind (ebind m f) g = ebind m (\<lambda>x. ebind (f x) g)"
  by (cases m) auto

lemma ebind_Inr: "ebind m f = Inr y \<longleftrightarrow> (\<exists>x. m = Inr x \<and> f x = Inr y)"
  by (cases m) auto

lemma py_endswith_Inr: "(\<exists>b. py_endswith a suf = Inr b) = is_str a"
  by (cases "(a, suf)" rule: py_endswith.cases) auto

lemma validate_config_ssh_dict:
  "py_get config ''ssh'' (VDict []) = Inr (VDict s) \<Longrightarrow> validate_config config = validate_ssh s"
  unfolding validate_config_def validate_ssh_def
  by (auto simp: Let_def ebind_assoc split: option.splits)

lemma validate_config_ssh_other:
  "py_get config ''ssh'' (VDict []) = Inr v \<Longrightarrow> \<forall>s. v \<noteq> VDict s
   \<Longrightarrow> validate_config config = Inl AttributeError"
  unfolding validate_config_def
  by (cases v) auto

lemma validate_config_not_dict:
  "\<forall>d. config \<noteq> VDict d \<Longrightarrow> validate_config config = Inl AttributeError"
  unfolding validate_config_def
  by (cases config) auto

lemma validate_ssh_returns:
  "(\<exists>errs. validate_ssh s = Inr errs) \<longleftrightarrow>
     (case map_of s (KStr ''allowed_ipv4'') of None \<Rightarrow> True | Some a \<Rightarrow> is_str a \<or> \<not> truthy a)"
proof (cases "map_of s (KStr ''allowed_ipv4'')")
  case None
  then show ?thesis by (simp add: validate_ssh_def Let_def)
next
  case (Some a)
  show ?thesis
  proof (cases "truthy a")
    case False
    with Some show ?thesis by (simp add: validate_ssh_def Let_def)
  next
    case True
    with Some show ?thesis
      using py_endswith_Inr [of a "''/32''"]
      by (auto simp: validate_ssh_def Let_def ebind_Inr)
  qed
qed

text \<open>
  Claim C2, as stated, fails: an integer \<open>ssh.allowed_ipv4\<close> is truthy, so the validator
  calls \<^verbatim>\<open>endswith\<close> on it, which an integer does not have.
\<close>

theorem validate_config_integer_ipv4_raises:
  "validate_config
     (VDict [(KStr ''ssh'',
        VDict [(KStr ''admin_username'', VStr ''deploy''), (KStr ''allowed_ipv4'', VInt 5)])])
   = Inl AttributeError"
  by (simp add: validate_config_def default_names_def is_placeholder_def)

text \<open>
  Claim C2, amended. The validator returns a list of problems, raising nothing, exactly
  on the documents that are a mapping whose \<open>ssh\<close> group is absent or a mapping and whose
  \<open>ssh.allowed_ipv4\<close> is absent, falsy or a string; \<open>ssh.admin_username\<close> may hold a value
  of any type.
\<close>

theorem validate_config_returns_iff:
  "(\<exists>errs. validate_config config = Inr errs) \<longleftrightarrow> validator_input_ok config"
proof (cases config)
  case (VDict d)
  show ?thesis
  proof (cases "map_of d (KStr ''ssh'')")
    case None
    then have "py_get config ''ssh'' (VDict []) = Inr (VDict [])" using VDict by simp
    from validate_config_ssh_dict [OF this] validate_ssh_returns [of "[]"] None VDict
    show ?thesis by (simp add: validator_input_ok_def)
  next
    case (Some g)
    then have g: "py_get config ''ssh'' (VDict []) = Inr g" using VDict by simp
    show ?thesis
    proof (cases "\<exists>s. g = VDict s")
      case True
      then obtain s where s: "g = VDict s" by blast
      from validate_config_ssh_dict [OF g [unfolded s]] validate_ssh_returns [of s] Some VDict s
      show ?thesis by (simp add: validator_input_ok_def)
    next
      case False
      then have "validate_config config = Inl AttributeError"
        using validate_config_ssh_other [OF g] by blast
      moreover have "\<not> validator_input_ok config"
        using False Some VDict by (cases g) (simp_all add: validator_input_ok_def)
      ultimately show ?thesis by simp
    qed
  qed
qed (simp_all add: validate_config_not_dict validator_input_ok_def)

theorem validate_config_returns_iff_witness:
  "validator_input_ok
     (VDict [(KStr ''ssh'',
        VDict [(KStr ''admin_username'', VInt 7), (KStr ''allowed_ipv4'', VStr ''1.2.3.4/32'')])])
   \<and> (\<exists>errs. validate_config
        (VDict [(KStr ''ssh'',
           VDict [(KStr ''admin_username'', VInt 7), (KStr ''allowed_ipv4'', VStr ''1.2.3.4/32'')])])
        = Inr errs)"
proof -
  have ok: "validator_input_ok
     (VDict [(KStr ''ssh'',
        VDict [(KStr ''admin_username'', VInt 7), (KStr ''allowed_ipv4'', VStr ''1.2.3.4/32'')])])"
    by (simp add: validator_input_ok_def)
  with validate_config_returns_iff show ?thesis by blast
qed

lemma validate_config_Inr_cases:
  assumes "validate_config config = Inr errs"
  obtains d s where "config = VDict d"
    and "(case map_of d (KStr ''ssh'') of None \<Rightarrow> VDict [] | Some w \<Rightarrow> w) = VDict s"
    and "validate_ssh s = Inr errs"
proof (cases config)
  case (VDict d)
  define g where "g = (case map_of d (KStr ''ssh'') of None \<Rightarrow> VDict [] | Some w \<Rightarrow> w)"
  have g: "py_get config ''ssh'' (VDict []) = Inr g" using VDict by (simp add: g_def)
  show ?thesis
  proof (cases "\<exists>s. g = VDict s")
    case True
    then obtain s where s: "g = VDict s" by blast
    from validate_config_ssh_dict [OF g [unfolded s]] assms have "validate_ssh s = Inr errs" by simp
    with that VDict s g_def show ?thesis by simp
  next
    case False
    with validate_config_ssh_other [OF g] assms show ?thesis by simp
  qed
qed (use assms validate_config_not_dict in auto)

lemma validate_ssh_username_problem:
  assumes "validate_ssh s = Inr errs"
  shows "''  - ssh.admin_username: not set or still CHANGEME'' \<in> set errs \<longleftrightarrow>
     is_placeholder (case map_of s (KStr ''admin_username'') of None \<Rightarrow> VNone | Some w \<Rightarrow> w)"
  using assms
  by (auto simp: validate_ssh_def Let_def ebind_Inr split: if_splits)

text \<open>
  Claim C3, as stated, fails: the test of the loop over the required fields is shared by
  both fields, so the user name \<^verbatim>\<open>CHANGEME/32\<close>, which is present and is not the
  literal \<^verbatim>\<open>CHANGEME\<close>, is reported as not set.
\<close>

theorem validate_config_username_slash32_reported:
  "validate_config
     (VDict [(KStr ''ssh'',
        VDict [(KStr ''admin_username'', VStr ''CHANGEME/32''),
               (KStr ''allowed_ipv4'', VStr ''1.2.3.4/32'')])])
   = Inr [''  - ssh.admin_username: not set or still CHANGEME'']
   \<and> lookup_path
       (VDict [(KStr ''ssh'',
          VDict [(KStr ''admin_username'', VStr ''CHANGEME/32''),
                 (KStr ''allowed_ipv4'', VStr ''1.2.3.4/32'')])])
       [''ssh'', ''admin_username''] = Some (VStr ''CHANGEME/32'')
   \<and> VStr ''CHANGEME/32'' \<noteq> VStr ''CHANGEME''"
  by (simp add: validate_config_def default_names_def is_placeholder_def ends_with_def)

text \<open>
  Claim C3, amended. Whenever the validator returns, its list holds the problem
  \<^verbatim>\<open>  - ssh.admin_username: not set or still CHANGEME\<close> if and only if
  \<open>ssh.admin_username\<close> is absent (the \<open>ssh\<close> group being absent included), is falsy, or
  equals \<^verbatim>\<open>CHANGEME\<close> or \<^verbatim>\<open>CHANGEME/32\<close>. In particular a document with
  \<open>ssh.admin_username = CHANGEME\<close> on which the validator returns gets this problem.
\<close>

theorem username_problem_iff:
  assumes "validate_config config = Inr errs"
  shows "''  - ssh.admin_username: not set or still CHANGEME'' \<in> set errs \<longleftrightarrow>
     (case lookup_path config [''ssh'', ''admin_username''] of
        None \<Rightarrow> True
      | Some v \<Rightarrow> \<not> truthy v \<or> v = VStr ''CHANGEME'' \<or> v = VStr ''CHANGEME/32'')"
proof -
  from assms obtain d s where c: "config = VDict d"
    and g: "(case map_of d (KStr ''ssh'') of None \<Rightarrow> VDict [] | Some w \<Rightarrow> w) = VDict s"
    and v: "validate_ssh s = Inr errs"
    by (rule validate_config_Inr_cases)
  have "lookup_path config [''ssh'', ''admin_username''] = map_of s (KStr ''admin_username'')"
    using c g by (auto split: option.splits)
  with validate_ssh_username_problem [OF v] show ?thesis
    by (simp add: is_placeholder_def split: option.splits)
qed

theorem username_problem_iff_witness:
  "validate_config
     (VDict [(KStr ''ssh'',
        VDict [(KStr ''admin_username'', VStr ''CHANGEME''),
               (KStr ''allowed_ipv4'', VStr ''1.2.3.4/32'')])])
   = Inr [''  - ssh.admin_username: not set or still CHANGEME'']
   \<and> ''  - ssh.admin_username: not set or still CHANGEME''
       \<in> set [''  - ssh.admin_username: not set or still CHANGEME'']"
proof -
  have h: "validate_config
     (VDict [(KStr ''ssh'',
        VDict [(KStr ''admin_username'', VStr ''CHANGEME''),
               (KStr ''allowed_ipv4'', VStr ''1.2.3.4/32'')])])
   = Inr [''  - ssh.admin_username: not set or still CHANGEME'']"
    by (simp add: validate_config_def default_names_def is_placeholder_def ends_with_def)
  from username_problem_iff [OF h] h show ?thesis by simp
qed

section \<open>Properties of the converter\<close>

lemma emit_if_truthy_dict:
  "emit_if_truthy (VDict a) key name lines =
     Inr (lines @ (case map_of a (KStr key) of None \<Rightarrow> []
                   | Some v \<Rightarrow> if truthy v then [assignment name v] else []))"
  by (simp add: emit_if_truthy_def split: option.splits)

lemma emit_if_present_dict:
  "emit_if_present (VDict a) key name lines =
     Inr (lines @ (case map_of a (KStr key) of None \<Rightarrow> [] | Some v \<Rightarrow> [assignment name v]))"
  by (simp add: emit_if_present_def split: option.splits)

lemma emit_if_truthy_not_dict:
  "\<not> is_dict g \<Longrightarrow> emit_if_truthy g key name lines = Inl AttributeError"
  by (cases g) (simp_all add: emit_if_truthy_def)

lemma field_line_group:
  "map_of d (KStr g) = Some (VDict a) \<Longrightarrow>
   field_line (VDict d) [g, f] =
     (case map_of a (KStr f) of None \<Rightarrow> []
      | Some v \<Rightarrow> if emitted_by_presence [g, f] \<or> truthy v
                  then [assignment (emitted_name [g, f]) v] else [])"
  by (simp add: field_line_def field_emitted_def assignment_def split: option.splits)

lemma azure_section_dict:
  "azure_section (VDict d) lines =
     (case map_of d (KStr ''azure'') of
        None \<Rightarrow> Inr lines
      | Some g \<Rightarrow> if is_dict g then Inr (lines @ group_section (VDict d) ''azure'')
                  else Inl AttributeError)"
proof (cases "map_of d (KStr ''azure'')")
  case None
  then show ?thesis by (simp add: azure_section_def)
next
  case (Some g)
  show ?thesis
  proof (cases g)
    case (VDict a)
    with Some have m: "map_of d (KStr ''azure'') = Some (VDict a)" by simp
    show ?thesis
      using m
      by (simp add: azure_section_def group_section_def section_lines_def whitelist_def field_line_group [OF m]
          emit_if_truthy_dict emit_if_present_dict emitted_by_presence_def emitted_name_def
          split: option.splits)
  qed (use Some in \<open>simp_all add: azure_section_def emit_if_truthy_not_dict\<close>)
qed

lemma ssh_section_dict:
  "ssh_section (VDict d) lines =
     (case map_of d (KStr ''ssh'') of
        None \<Rightarrow> Inr lines
      | Some g \<Rightarrow> if is_dict g then Inr (lines @ group_section (VDict d) ''ssh'')
                  else Inl AttributeError)"
proof (cases "map_of d (KStr ''ssh'')")
  case None
  then show ?thesis by (simp add: ssh_section_def)
next
  case (Some g)
  show ?thesis
  proof (cases g)
    case (VDict a)
    with Some have m: "map_of d (KStr ''ssh'') = Some (VDict a)" by simp
    show ?thesis
      using m
      by (simp add: ssh_section_def group_section_def section_lines_def whitelist_def
          field_line_group [OF m] emit_if_truthy_dict emit_if_present_dict
          emitted_by_presence_def emitted_name_def split: option.splits)
  qed (use Some in \<open>simp_all add: ssh_section_def emit_if_truthy_not_dict\<close>)
qed

lemma network_section_dict:
  "network_section (VDict d) lines =
     (case map_of d (KStr ''network'') of
        None \<Rightarrow> Inr lines
      | Some g \<Rightarrow> if is_dict g then Inr (lines @ group_section (VDict d) ''network'')
                  else Inl AttributeError)"
proof (cases "map_of d (KStr ''network'')")
  case None
  then show ?thesis by (simp add: network_section_def)
next
  case (Some g)
  show ?thesis
  proof (cases g)
    case (VDict a)
    with Some have m: "map_of d (KStr ''network'') = Some (VDict a)" by simp
    show ?thesis
      using m
      by (simp add: network_section_def group_section_def section_lines_def whitelist_def
          field_line_group [OF m] emit_if_truthy_dict emit_if_present_dict
          emitted_by_presence_def emitted_name_def split: option.splits)
  qed (use Some in \<open>simp_all add: network_section_def emit_if_truthy_not_dict\<close>)
qed

lemma wireguard_section_dict:
  "wireguard_section (VDict d) lines =
     (case map_of d (KStr ''wireguard'') of
        None \<Rightarrow> Inr lines
      | Some g \<Rightarrow> if is_dict g then Inr (lines @ group_section (VDict d) ''wireguard'')
                  else Inl AttributeError)"
proof (cases "map_of d (KStr ''wireguard'')")
  case None
  then show ?thesis by (simp add: wireguard_section_def)
next
  case (Some g)
  show ?thesis
  proof (cases g)
    case (VDict a)
    with Some have m: "map_of d (KStr ''wireguard'') = Some (VDict a)" by simp
    show ?thesis
      using m
      by (simp add: wireguard_section_def group_section_def section_lines_def whitelist_def
          field_line_group [OF m] emit_if_truthy_dict emit_if_present_dict
          emitted_by_presence_def emitted_name_def split: option.splits)
  qed (use Some in \<open>simp_all add: wireguard_section_def emit_if_truthy_not_dict\<close>)
qed

lemma tags_section_dict:
  "tags_section (VDict d) lines = Inr (lines @ group_section (VDict d) ''tags'')"
  by (simp add: tags_section_def group_section_def section_lines_def whitelist_def
      field_line_def field_emitted_def emitted_by_presence_def emitted_name_def assignment_def
      split: option.splits)

lemma group_section_absent:
  "map_of d (KStr g) = None \<Longrightarrow> group_section (VDict d) g = []"
  by (simp add: group_section_def)

lemma azure_section_ok:
  "group_ok (VDict d) ''azure'' \<Longrightarrow>
   azure_section (VDict d) lines = Inr (lines @ group_section (VDict d) ''azure'')"
  by (auto simp: azure_section_dict group_ok_def group_section_absent split: option.splits)

lemma ssh_section_ok:
  "group_ok (VDict d) ''ssh'' \<Longrightarrow>
   ssh_section (VDict d) lines = Inr (lines @ group_section (VDict d) ''ssh'')"
  by (auto simp: ssh_section_dict group_ok_def group_section_absent split: option.splits)

lemma network_section_ok:
  "group_ok (VDict d) ''network'' \<Longrightarrow>
   network_section (VDict d) lines = Inr (lines @ group_section (VDict d) ''network'')"
  by (auto simp: network_section_dict group_ok_def group_section_absent split: option.splits)

lemma wireguard_section_ok:
  "group_ok (VDict d) ''wireguard'' \<Longrightarrow>
   wireguard_section (VDict d) lines = Inr (lines @ group_section (VDict d) ''wireguard'')"
  by (auto simp: wireguard_section_dict group_ok_def group_section_absent split: option.splits)

lemma azure_section_bad:
  "\<not> group_ok (VDict d) ''azure'' \<Longrightarrow> azure_section (VDict d) lines = Inl AttributeError"
  by (auto simp: azure_section_dict group_ok_def split: option.splits)

lemma ssh_section_bad:
  "\<not> group_ok (VDict d) ''ssh'' \<Longrightarrow> ssh_section (VDict d) lines = Inl AttributeError"
  by (auto simp: ssh_section_dict group_ok_def split: option.splits)

lemma network_section_bad:
  "\<not> group_ok (VDict d) ''network'' \<Longrightarrow> network_section (VDict d) lines = Inl AttributeError"
  by (auto simp: network_section_dict group_ok_def split: option.splits)

lemma wireguard_section_bad:
  "\<not> group_ok (VDict d) ''wireguard'' \<Longrightarrow> wireguard_section (VDict d) lines = Inl AttributeError"
  by (auto simp: wireguard_section_dict group_ok_def split: option.splits)

lemma well_shaped_dict:
  "well_shaped (VDict d) \<longleftrightarrow>
     group_ok (VDict d) ''azure'' \<and> group_ok (VDict d) ''ssh'' \<and>
     group_ok (VDict d) ''network'' \<and> group_ok (VDict d) ''wireguard''"
  by (simp add: well_shaped_def)

lemma yaml_to_tfvars_lines_dict:
  "well_shaped (VDict d) \<Longrightarrow>
   yaml_to_tfvars_lines (VDict d) =
     Inr (comment_header @ [''''] @ concat (map (group_section (VDict d)) groups))"
  by (simp add: yaml_to_tfvars_lines_def well_shaped_dict azure_section_ok ssh_section_ok
      network_section_ok wireguard_section_ok tags_section_dict groups_def)

lemma yaml_to_tfvars_lines_ill_shaped:
  assumes "\<not> well_shaped (VDict d)"
  shows "yaml_to_tfvars_lines (VDict d) = Inl AttributeError"
proof (cases "group_ok (VDict d) ''azure''")
  case False
  then show ?thesis by (simp add: yaml_to_tfvars_lines_def azure_section_bad)
next
  case a: True
  show ?thesis
  proof (cases "group_ok (VDict d) ''ssh''")
    case False
    then show ?thesis by (simp add: yaml_to_tfvars_lines_def azure_section_ok [OF a] ssh_section_bad)
  next
    case s: True
    show ?thesis
    proof (cases "group_ok (VDict d) ''network''")
      case False
      then show ?thesis
        by (simp add: yaml_to_tfvars_lines_def azure_section_ok [OF a] ssh_section_ok [OF s]
            network_section_bad)
    next
      case n: True
      with a s assms have "\<not> group_ok (VDict d) ''wireguard''" by (simp add: well_shaped_dict)
      then show ?thesis
        by (simp add: yaml_to_tfvars_lines_def azure_section_ok [OF a] ssh_section_ok [OF s]
            network_section_ok [OF n] wireguard_section_bad)
    qed
  qed
qed

lemma concat_map_if_filter:
  "concat (map (\<lambda>g. if P g then [] else f g) xs) = concat (map f (filter (\<lambda>g. \<not> P g) xs))"
  by (induction xs) simp_all

lemma lines_by_parts:
  "comment_header @ [''''] @ concat (map (group_section doc) groups) =
   concat (map (\<lambda>part. part @ [''''])
     (comment_header # map (section_lines doc) (present_groups doc)))"
proof -
  have "concat (map (group_section doc) groups)
      = concat (map (\<lambda>g. section_lines doc g @ ['''']) (present_groups doc))"
    unfolding present_groups_def group_section_def
    using concat_map_if_filter [of "\<lambda>g. lookup_path doc [g] = None"
        "\<lambda>g. section_lines doc g @ ['''']" groups]
    by simp
  then show ?thesis by (simp add: comp_def)
qed

lemma well_shaped_is_dict: "well_shaped doc \<Longrightarrow> \<exists>d. doc = VDict d"
  by (cases doc) (simp_all add: well_shaped_def)

lemma yaml_to_tfvars_lines_well_shaped:
  "well_shaped doc \<Longrightarrow>
   yaml_to_tfvars_lines doc = Inr (comment_header @ [''''] @ concat (map (group_section doc) groups))"
  using well_shaped_is_dict yaml_to_tfvars_lines_dict by blast

lemma sample_doc_well_shaped:
  "well_shaped (VDict [(KStr ''azure'', VDict [(KStr ''use_static_ip'', VBool False)]),
                       (KStr ''wireguard'', VDict [(KStr ''port'', VInt 7)]),
                       (KStr ''caddy'', VInt 1)])"
  by (simp add: well_shaped_def group_ok_def)

lemma join_Cons: "ys \<noteq> [] \<Longrightarrow> join sep (x # ys) = x @ sep @ join sep ys"
  by (cases ys) simp_all

lemma join_concat: "join sep (x # ys) = x @ concat (map (\<lambda>y. sep @ y) ys)"
  by (induction ys arbitrary: x) (simp_all)

lemma join_append:
  "as \<noteq> [] \<Longrightarrow> bs \<noteq> [] \<Longrightarrow> join sep (as @ bs) = join sep as @ sep @ join sep bs"
proof (induction as)
  case Nil
  then show ?case by simp
next
  case (Cons a as)
  show ?case
  proof (cases "as = []")
    case True
    with Cons.prems show ?thesis by (simp add: join_Cons)
  next
    case False
    with Cons show ?thesis by (simp add: join_Cons)
  qed
qed

lemma join_lines:
  "join [CHR 0x0A] (xs @ ['''']) = concat (map (\<lambda>l. l @ [CHR 0x0A]) xs)"
  by (induction xs) (simp_all add: join_Cons)

lemma parts_append:
  "concat (map (\<lambda>p. p @ [e]) (h # ss)) = (h @ concat (map (\<lambda>s. e # s) ss)) @ [e]"
  by (induction ss arbitrary: h) simp_all

lemma text_by_parts:
  "join [CHR 0x0A] (concat (map (\<lambda>p. p @ ['''']) (h # ss))) =
     concat (map (\<lambda>l. l @ [CHR 0x0A]) h)
     @ concat (map (\<lambda>s. CHR 0x0A # concat (map (\<lambda>l. l @ [CHR 0x0A]) s)) ss)"
proof -
  have "concat (map (\<lambda>l. l @ [CHR 0x0A]) (concat (map (\<lambda>s. '''' # s) ss)))
      = concat (map (\<lambda>s. CHR 0x0A # concat (map (\<lambda>l. l @ [CHR 0x0A]) s)) ss)"
    by (induction ss) simp_all
  then show ?thesis
    by (simp only: parts_append join_lines map_append concat_append)
qed

text \<open>
  Claim C7, as stated, fails: a group that is present adds its empty line also when none
  of its fields is emitted. On the document \<^verbatim>\<open>{azure: {}, ssh: {admin_username: deploy}}\<close>
  the header is followed by two empty lines, the one that ends the header and the one of
  the \<open>azure\<close> group, before the section of \<open>ssh\<close>.
\<close>

theorem empty_group_gives_two_blank_lines:
  "yaml_to_tfvars (VDict [(KStr ''azure'', VDict []),
                          (KStr ''ssh'', VDict [(KStr ''admin_username'', VStr ''deploy'')])])
   = Inr (''# Auto-generated from config.yml'' @ [CHR 0x0A]
        @ ''# Do not edit directly - modify config.yml instead'' @ [CHR 0x0A]
        @ ''#'' @ [CHR 0x0A]
        @ ''# Only infrastructure variables are included here.'' @ [CHR 0x0A]
        @ ''# Application config (WireGuard, Caddy, etc.) is handled by Ansible.''
        @ [CHR 0x0A, CHR 0x0A, CHR 0x0A]
        @ ''admin_username = '' @ [CHR 0x22] @ ''deploy'' @ [CHR 0x22] @ [CHR 0x0A])
   \<and> yaml_to_tfvars_lines (VDict [(KStr ''azure'', VDict []),
                          (KStr ''ssh'', VDict [(KStr ''admin_username'', VStr ''deploy'')])])
   = Inr (comment_header @ ['''', '''', ''admin_username = '' @ [CHR 0x22] @ ''deploy'' @ [CHR 0x22], ''''])"
  by code_simp

text \<open>
  Claim C7, amended. On a well-shaped document (a mapping whose groups \<open>azure\<close>, \<open>ssh\<close>,
  \<open>network\<close> and \<open>wireguard\<close>, when present, are mappings) the output text is the five
  lines of the comment header, each ended by a line feed, and then, for every group that
  is present in the document, in the order azure, ssh, network, wireguard, tags, one empty
  line followed by the assignment lines of the group, each ended by a line feed. A group
  that is absent adds nothing, neither a line nor an empty line. A group that is present
  adds its empty line also when none of its fields is emitted, so that two or more empty
  lines follow one another exactly where such groups stand.
\<close>

theorem output_is_header_then_sections:
  assumes "well_shaped doc"
  shows "yaml_to_tfvars doc =
           Inr (concat (map (\<lambda>l. l @ [CHR 0x0A]) comment_header)
                @ concat (map (\<lambda>g. CHR 0x0A # concat (map (\<lambda>l. l @ [CHR 0x0A]) (section_lines doc g)))
                            (present_groups doc)))
         \<and> length comment_header = 5
         \<and> groups = [''azure'', ''ssh'', ''network'', ''wireguard'', ''tags'']"
proof -
  have "yaml_to_tfvars doc = Inr (join [CHR 0x0A] (concat (map (\<lambda>part. part @ [''''])
     (comment_header # map (section_lines doc) (present_groups doc)))))"
    using yaml_to_tfvars_lines_well_shaped [OF assms] lines_by_parts [of doc]
    by (simp add: yaml_to_tfvars_def)
  then have "yaml_to_tfvars doc =
           Inr (concat (map (\<lambda>l. l @ [CHR 0x0A]) comment_header)
                @ concat (map (\<lambda>g. CHR 0x0A # concat (map (\<lambda>l. l @ [CHR 0x0A]) (section_lines doc g)))
                            (present_groups doc)))"
    by (simp only: text_by_parts map_map comp_def)
  then show ?thesis by (simp add: comment_header_def groups_def)
qed

theorem output_is_header_then_sections_witness:
  "well_shaped (VDict [(KStr ''azure'', VDict [(KStr ''use_static_ip'', VBool False)]),
                       (KStr ''wireguard'', VDict [(KStr ''port'', VInt 7)]),
                       (KStr ''caddy'', VInt 1)])
   \<and> yaml_to_tfvars (VDict [(KStr ''azure'', VDict [(KStr ''use_static_ip'', VBool False)]),
                       (KStr ''wireguard'', VDict [(KStr ''port'', VInt 7)]),
                       (KStr ''caddy'', VInt 1)])
     = Inr (''# Auto-generated from config.yml'' @ [CHR 0x0A]
        @ ''# Do not edit directly - modify config.yml instead'' @ [CHR 0x0A]
        @ ''#'' @ [CHR 0x0A]
        @ ''# Only infrastructure variables are included here.'' @ [CHR 0x0A]
        @ ''# Application config (WireGuard, Caddy, etc.) is handled by Ansible.''
        @ [CHR 0x0A, CHR 0x0A]
        @ ''use_static_ip = false'' @ [CHR 0x0A, CHR 0x0A]
        @ ''wireguard_port = 7'' @ [CHR 0x0A])"
proof -
  let ?doc = "VDict [(KStr ''azure'', VDict [(KStr ''use_static_ip'', VBool False)]),
                       (KStr ''wireguard'', VDict [(KStr ''port'', VInt 7)]),
                       (KStr ''caddy'', VInt 1)]"
  have e: "concat (map (\<lambda>l. l @ [CHR 0x0A]) comment_header)
                @ concat (map (\<lambda>g. CHR 0x0A # concat (map (\<lambda>l. l @ [CHR 0x0A]) (section_lines ?doc g)))
                            (present_groups ?doc))
     = ''# Auto-generated from config.yml'' @ [CHR 0x0A]
        @ ''# Do not edit directly - modify config.yml instead'' @ [CHR 0x0A]
        @ ''#'' @ [CHR 0x0A]
        @ ''# Only infrastructure variables are included here.'' @ [CHR 0x0A]
        @ ''# Application config (WireGuard, Caddy, etc.) is handled by Ansible.''
        @ [CHR 0x0A, CHR 0x0A]
        @ ''use_static_ip = false'' @ [CHR 0x0A, CHR 0x0A]
        @ ''wireguard_port = 7'' @ [CHR 0x0A]"
    by code_simp
  from output_is_header_then_sections [OF sample_doc_well_shaped] e sample_doc_well_shaped
  show ?thesis by (simp only:) 
qed

lemma set_join: "set (join sep xs) \<subseteq> set sep \<union> (\<Union>x \<in> set xs. set x)"
  by (induction sep xs rule: join.induct) auto

lemma int_list_example: "to_hcl_value (VList [VInt 1, VInt 2, VInt 3]) 0 = ''[1, 2, 3]''"
  by code_simp


lemma set_join_item: "x \<in> set xs \<Longrightarrow> set x \<subseteq> set (join sep xs)"
  by (induction sep xs rule: join.induct) auto

lemma last_concat:
  "(\<forall>x \<in> set xss. x = [] \<or> last x = e) \<Longrightarrow> concat xss \<noteq> [] \<Longrightarrow> last (concat xss) = e"
  by (induction xss) (auto simp: last_append)

lemma sections_end_blank:
  assumes "concat (map (group_section doc) gs) \<noteq> []"
  shows "last (concat (map (group_section doc) gs)) = ''''"
  by (rule last_concat [OF _ assms]) (auto simp: group_section_def)

lemma assignment_not_blank: "l \<in> set (field_line doc p) \<Longrightarrow> l \<noteq> []"
  by (cases "lookup_path doc p") (auto simp: field_line_def split: if_splits)

lemma field_line_in_text:
  assumes "well_shaped doc" "p \<in> set whitelist" "l \<in> set (field_line doc p)"
  shows "\<exists>pre post. yaml_to_tfvars doc = Inr (pre @ [CHR 0x0A] @ l @ [CHR 0x0A] @ post)"
proof -
  let ?G = "concat (map (group_section doc) groups)"
  from assms(3) have some: "lookup_path doc p \<noteq> None"
    by (cases "lookup_path doc p") (simp_all add: field_line_def)
  from assms(2) have hd: "hd p \<in> set groups" by (auto simp: whitelist_def groups_def)
  have pres: "lookup_path doc [hd p] \<noteq> None"
    using some assms(1,2) well_shaped_is_dict [OF assms(1)]
    by (auto simp: whitelist_def split: option.splits)
  have "l \<in> set (section_lines doc (hd p))"
    using assms(2,3) by (auto simp: section_lines_def)
  with pres have "l \<in> set (group_section doc (hd p))" by (simp add: group_section_def)
  with hd have lG: "l \<in> set ?G" by (simp only: set_concat set_map) blast
  then obtain as bs where split: "?G = as @ l # bs" by (meson split_list)
  have ne: "?G \<noteq> []"
  proof
    assume e: "?G = []"
    from lG show False unfolding e by simp
  qed
  have "bs \<noteq> []"
  proof
    assume "bs = []"
    with split have "last ?G = l" by simp
    with sections_end_blank [OF ne] assignment_not_blank [OF assms(3)] show False by simp
  qed
  have ch: "comment_header @ [''''] @ as \<noteq> []" by (simp add: comment_header_def)
  have "join [CHR 0x0A] (comment_header @ [''''] @ ?G)
      = join [CHR 0x0A] ((comment_header @ [''''] @ as) @ ([l] @ bs))"
    by (simp add: split)
  also have "\<dots> = join [CHR 0x0A] (comment_header @ [''''] @ as) @ [CHR 0x0A] @ join [CHR 0x0A] ([l] @ bs)"
    by (rule join_append [OF ch]) simp
  also have "join [CHR 0x0A] ([l] @ bs) = l @ [CHR 0x0A] @ join [CHR 0x0A] bs"
    using \<open>bs \<noteq> []\<close> by (simp add: join_Cons)
  finally have "join [CHR 0x0A] (comment_header @ [''''] @ ?G)
      = join [CHR 0x0A] (comment_header @ [''''] @ as) @ [CHR 0x0A] @ l @ [CHR 0x0A] @ join [CHR 0x0A] bs" .
  with yaml_to_tfvars_lines_well_shaped [OF assms(1)] show ?thesis
    by (auto simp: yaml_to_tfvars_def)
qed

text \<open>
  Claim C6, as stated, fails: the rendering of a sequence holds the line breaks of the
  renderings of its items. The sequence \<^verbatim>\<open>[{'a': 1}]\<close> is rendered on three lines.
\<close>

theorem nested_mapping_in_sequence_breaks_line:
  "to_hcl_value (VList [VDict [(KStr ''a'', VInt 1)]]) 0
     = ''[{'' @ [CHR 0x0A] @ ''    a = 1'' @ [CHR 0x0A] @ ''  }]''
   \<and> CHR 0x0A \<in> set (to_hcl_value (VList [VDict [(KStr ''a'', VInt 1)]]) 0)"
  by code_simp

text \<open>
  Claim C6, amended. The empty sequence is rendered as \<^verbatim>\<open>[]\<close>; a non-empty sequence as an
  opening bracket, the rendering of its first item, then a comma, a space and the rendering
  for each further item (all at indentation \<open>indent + 2\<close>), and a closing bracket. The
  sequence syntax adds no line break of its own: the rendering holds a line feed exactly
  when the rendering of one of its items does (a nested mapping that is not empty, or a
  string that holds a line feed). On a well-shaped document with
  \<open>azure.availability_zones = [1, 2, 3]\<close> the output text holds
  \<^verbatim>\<open>availability_zones = [1, 2, 3]\<close> as a whole line, between two line feeds.
\<close>

theorem sequence_rendering:
  "to_hcl_value (VList []) indent = ''[]''
   \<and> to_hcl_value (VList (x # ys)) indent =
       ''['' @ to_hcl_value x (indent + 2)
         @ concat (map (\<lambda>y. '', '' @ to_hcl_value y (indent + 2)) ys) @ '']''
   \<and> (CHR 0x0A \<in> set (to_hcl_value (VList xs) indent) \<longleftrightarrow>
        (\<exists>item \<in> set xs. CHR 0x0A \<in> set (to_hcl_value item (indent + 2))))
   \<and> (well_shaped doc \<and>
        lookup_path doc [''azure'', ''availability_zones''] = Some (VList [VInt 1, VInt 2, VInt 3])
        \<longrightarrow> (\<exists>pre post. yaml_to_tfvars doc =
               Inr (pre @ [CHR 0x0A] @ ''availability_zones = [1, 2, 3]'' @ [CHR 0x0A] @ post)))"
proof -
  have p1: "to_hcl_value (VList []) indent = ''[]''" by simp
  have p2: "to_hcl_value (VList (x # ys)) indent =
       ''['' @ to_hcl_value x (indent + 2)
         @ concat (map (\<lambda>y. '', '' @ to_hcl_value y (indent + 2)) ys) @ '']''"
    by (simp add: join_concat comp_def del: join.simps)
  have p3: "CHR 0x0A \<in> set (to_hcl_value (VList xs) indent) \<longleftrightarrow>
        (\<exists>item \<in> set xs. CHR 0x0A \<in> set (to_hcl_value item (indent + 2)))"
  proof (cases "xs = []")
    case True
    then show ?thesis by simp
  next
    case False
    let ?items = "map (\<lambda>item. to_hcl_value item (indent + 2)) xs"
    have sub: "set (join '', '' ?items) \<subseteq> set '', '' \<union> (\<Union>x \<in> set ?items. set x)"
      by (rule set_join)
    have sup: "\<And>i. i \<in> set ?items \<Longrightarrow> set i \<subseteq> set (join '', '' ?items)"
      by (rule set_join_item)
    have "CHR 0x0A \<in> set (join '', '' ?items) \<longleftrightarrow> (\<exists>i \<in> set ?items. CHR 0x0A \<in> set i)"
      using sub sup by auto
    with False show ?thesis by (simp del: join.simps)
  qed
  have p4: "well_shaped doc \<and>
        lookup_path doc [''azure'', ''availability_zones''] = Some (VList [VInt 1, VInt 2, VInt 3])
        \<longrightarrow> (\<exists>pre post. yaml_to_tfvars doc =
               Inr (pre @ [CHR 0x0A] @ ''availability_zones = [1, 2, 3]'' @ [CHR 0x0A] @ post))"
  proof
    assume h: "well_shaped doc \<and>
        lookup_path doc [''azure'', ''availability_zones''] = Some (VList [VInt 1, VInt 2, VInt 3])"
    then have "''availability_zones = [1, 2, 3]'' \<in> set (field_line doc [''azure'', ''availability_zones''])"
      using int_list_example by (simp add: field_line_def field_emitted_def emitted_name_def)
    moreover have "[''azure'', ''availability_zones''] \<in> set whitelist" by (simp add: whitelist_def)
    ultimately show "\<exists>pre post. yaml_to_tfvars doc =
               Inr (pre @ [CHR 0x0A] @ ''availability_zones = [1, 2, 3]'' @ [CHR 0x0A] @ post)"
      using field_line_in_text h by blast
  qed
  show ?thesis by (rule conjI [OF p1 conjI [OF p2 conjI [OF p3 p4]]])
qed

theorem sequence_rendering_witness:
  "to_hcl_value (VList [VInt 1, VInt 2, VInt 3]) 0 = ''[1, 2, 3]''
   \<and> CHR 0x0A \<notin> set (to_hcl_value (VList [VInt 1, VInt 2, VInt 3]) 0)
   \<and> (\<exists>pre post. yaml_to_tfvars
        (VDict [(KStr ''azure'', VDict [(KStr ''availability_zones'', VList [VInt 1, VInt 2, VInt 3])])])
          = Inr (pre @ [CHR 0x0A] @ ''availability_zones = [1, 2, 3]'' @ [CHR 0x0A] @ post))"
proof -
  let ?doc = "VDict [(KStr ''azure'', VDict [(KStr ''availability_zones'', VList [VInt 1, VInt 2, VInt 3])])]"
  have a: "well_shaped ?doc \<and>
     lookup_path ?doc [''azure'', ''availability_zones''] = Some (VList [VInt 1, VInt 2, VInt 3])"
    by (simp add: well_shaped_def group_ok_def)
  have b: "\<not> (\<exists>item \<in> set [VInt 1, VInt 2, VInt 3]. CHR 0x0A \<in> set (to_hcl_value item (0 + 2)))"
    by code_simp
  have d: "''['' @ to_hcl_value (VInt 1) (0 + 2)
         @ concat (map (\<lambda>y. '', '' @ to_hcl_value y (0 + 2)) [VInt 2, VInt 3]) @ '']''
           = ''[1, 2, 3]''"
    by code_simp
  from sequence_rendering [of 0 "VInt 1" "[VInt 2, VInt 3]" "[VInt 1, VInt 2, VInt 3]" ?doc]
    a b d
  show ?thesis by (simp del: to_hcl_value.simps)
qed

lemma section_lines_subset:
  "l \<in> set (section_lines doc g) \<Longrightarrow> \<exists>p \<in> set whitelist. l \<in> set (field_line doc p)"
  by (auto simp: section_lines_def)

lemma lines_origin:
  assumes "well_shaped doc" "yaml_to_tfvars_lines doc = Inr ls" "l \<in> set ls"
  shows "l \<in> set comment_header \<or> l = [] \<or> (\<exists>p \<in> set whitelist. l \<in> set (field_line doc p))"
proof -
  from yaml_to_tfvars_lines_well_shaped [OF assms(1)] assms(2)
  have "ls = comment_header @ [''''] @ concat (map (group_section doc) groups)" by simp
  with assms(3) consider "l \<in> set comment_header" | "l = []"
    | g where "l \<in> set (group_section doc g)" by auto
  then show ?thesis
  proof cases
    case 3
    then have "l = [] \<or> l \<in> set (section_lines doc g)"
      by (auto simp: group_section_def split: if_splits)
    with section_lines_subset show ?thesis by blast
  qed simp_all
qed

lemma field_line_cases:
  "l \<in> set (field_line doc p) \<Longrightarrow>
   \<exists>v. lookup_path doc p = Some v \<and> field_emitted doc p \<and> l = emitted_name p @ '' = '' @ to_hcl_value v 0"
  by (cases "lookup_path doc p") (auto simp: field_line_def split: if_splits)






















lemma map_of_map_filter:
  "map_of (map (\<lambda>(k, v). (k, f k v)) (filter (\<lambda>(k, v). P k) d)) k =
     (if P k then map_option (f k) (map_of d k) else None)"
  by (induction d) auto

lemma map_of_filter_keys:
  "P k \<Longrightarrow> map_of (filter (\<lambda>(k, v). P k) a) k = map_of a k"
  by (induction a) auto

lemma group_fields_simps:
  "group_fields ''azure'' = [''location'', ''resource_group'', ''vm_size'', ''use_static_ip'', ''availability_zones'']"
  "group_fields ''ssh'' = [''admin_username'', ''public_key_path'', ''allowed_ipv4'', ''allowed_ipv6'']"
  "group_fields ''network'' = [''vnet_address_space'', ''subnet_address'']"
  "group_fields ''wireguard'' = [''port'']"
  by (simp_all add: group_fields_def whitelist_def)

lemma whitelisted_group:
  "g \<in> set groups \<Longrightarrow>
   map_of (map (\<lambda>(k, v). (k, if k = KStr ''tags'' then v else restrict_group (key_str k) v))
              (filter (\<lambda>(k, v). key_in k groups) d)) (KStr g)
   = map_option (\<lambda>v. if g = ''tags'' then v else restrict_group g v) (map_of d (KStr g))"
  by (simp add: map_of_map_filter cong: if_cong)

lemma restrict_group_field:
  "f \<in> set (group_fields g) \<Longrightarrow> lookup_path (restrict_group g v) [f] = lookup_path v [f]"
  by (cases v) (simp_all add: map_of_filter_keys)

lemma is_dict_restrict_group: "is_dict (restrict_group g v) = is_dict v"
  by (cases v) simp_all

lemma whitelist_cases:
  assumes "p \<in> set whitelist"
  shows "p = [''tags''] \<or>
     (\<exists>g f. p = [g, f] \<and> g \<in> set groups \<and> g \<noteq> ''tags'' \<and> f \<in> set (group_fields g))"
proof -
  have "\<forall>p \<in> set whitelist. p = [''tags''] \<or>
     (p = [hd p, last p] \<and> hd p \<in> set groups \<and> hd p \<noteq> ''tags'' \<and> last p \<in> set (group_fields (hd p)))"
    unfolding whitelist_def by (simp add: group_fields_simps groups_def)
  with assms show ?thesis by blast
qed

lemma lookup_whitelisted_group:
  "g \<in> set groups \<Longrightarrow>
   lookup_path (whitelisted_part (VDict d)) [g] =
     map_option (\<lambda>v. if g = ''tags'' then v else restrict_group g v) (lookup_path (VDict d) [g])"
  by (cases "map_of d (KStr g)") (simp_all add: whitelisted_group whitelisted_part.simps)

lemma lookup_whitelisted:
  assumes "p \<in> set whitelist"
  shows "lookup_path (whitelisted_part (VDict d)) p = lookup_path (VDict d) p"
proof -
  from whitelist_cases [OF assms] consider "p = [''tags'']"
    | g f where "p = [g, f]" "g \<in> set groups" "g \<noteq> ''tags''" "f \<in> set (group_fields g)"
    by blast
  then show ?thesis
  proof cases
    case 1
    have "''tags'' \<in> set groups" by (simp add: groups_def)
    from lookup_whitelisted_group [OF this, of d] 1 show ?thesis
      by (cases "lookup_path (VDict d) [''tags'']") simp_all
  next
    case 2
    show ?thesis
    proof (cases "map_of d (KStr g)")
      case None
      with 2 show ?thesis by (simp add: whitelisted_group whitelisted_part.simps)
    next
      case (Some v)
      with 2 restrict_group_field [OF 2(4), of v] show ?thesis
        by (simp add: whitelisted_group whitelisted_part.simps)
    qed
  qed
qed

lemma field_line_whitelisted:
  "p \<in> set whitelist \<Longrightarrow> field_line (whitelisted_part (VDict d)) p = field_line (VDict d) p"
  by (simp add: field_line_def field_emitted_def lookup_whitelisted cong: option.case_cong)

lemma section_lines_whitelisted:
  "section_lines (whitelisted_part (VDict d)) g = section_lines (VDict d) g"
proof -
  have "map (field_line (whitelisted_part (VDict d))) (filter (\<lambda>p. hd p = g) whitelist)
      = map (field_line (VDict d)) (filter (\<lambda>p. hd p = g) whitelist)"
    by (rule map_cong) (simp_all add: field_line_whitelisted)
  then show ?thesis by (simp only: section_lines_def)
qed

lemma group_section_whitelisted:
  assumes "g \<in> set groups"
  shows "group_section (whitelisted_part (VDict d)) g = group_section (VDict d) g"
proof -
  have "lookup_path (whitelisted_part (VDict d)) [g] = None \<longleftrightarrow> lookup_path (VDict d) [g] = None"
    by (simp only: lookup_whitelisted_group [OF assms] option.map_disc_iff)
  then show ?thesis by (simp only: group_section_def section_lines_whitelisted)
qed

lemma group_ok_whitelisted:
  assumes "g \<in> set groups"
  shows "group_ok (whitelisted_part (VDict d)) g = group_ok (VDict d) g"
  unfolding group_ok_def lookup_whitelisted_group [OF assms]
  by (cases "lookup_path (VDict d) [g]") (simp_all add: is_dict_restrict_group)

lemma well_shaped_whitelisted:
  "well_shaped (whitelisted_part (VDict d)) = well_shaped (VDict d)"
proof -
  have "''azure'' \<in> set groups" "''ssh'' \<in> set groups" "''network'' \<in> set groups"
    "''wireguard'' \<in> set groups"
    by (simp_all add: groups_def)
  moreover obtain d' where d': "whitelisted_part (VDict d) = VDict d'"
    by (simp add: whitelisted_part.simps)
  ultimately show ?thesis
    using well_shaped_dict [of d] well_shaped_dict [of d'] group_ok_whitelisted [of _ d]
    by (simp add: d' [symmetric])
qed

lemma lines_whitelisted_dict:
  "yaml_to_tfvars_lines (whitelisted_part (VDict d)) = yaml_to_tfvars_lines (VDict d)"
proof (cases "well_shaped (VDict d)")
  case True
  then have w: "well_shaped (whitelisted_part (VDict d))" by (simp add: well_shaped_whitelisted)
  have "map (group_section (whitelisted_part (VDict d))) groups = map (group_section (VDict d)) groups"
    by (rule map_cong) (simp_all add: group_section_whitelisted)
  with yaml_to_tfvars_lines_well_shaped [OF w] yaml_to_tfvars_lines_well_shaped [OF True]
  show ?thesis by (simp)
next
  case False
  then have w: "\<not> well_shaped (whitelisted_part (VDict d))" by (simp add: well_shaped_whitelisted)
  obtain d' where d': "whitelisted_part (VDict d) = VDict d'" by (simp add: whitelisted_part.simps)
  from yaml_to_tfvars_lines_ill_shaped [of d'] w d' yaml_to_tfvars_lines_ill_shaped [OF False]
  show ?thesis by simp
qed

lemma lines_whitelisted:
  "yaml_to_tfvars_lines (whitelisted_part config) = yaml_to_tfvars_lines config"
  by (cases config) (simp_all add: lines_whitelisted_dict whitelisted_part.simps(2-))

lemma py_getitem_not_dict: "\<not> is_dict c \<Longrightarrow> py_getitem c k = Inl TypeError"
  by (cases c) simp_all

lemma section_not_dict:
  assumes "\<not> is_dict c"
  shows "azure_section c lines = Inr out \<Longrightarrow> out = lines"
    and "ssh_section c lines = Inr out \<Longrightarrow> out = lines"
    and "network_section c lines = Inr out \<Longrightarrow> out = lines"
    and "wireguard_section c lines = Inr out \<Longrightarrow> out = lines"
    and "tags_section c lines = Inr out \<Longrightarrow> out = lines"
  using py_getitem_not_dict [OF assms]
  by (auto simp: azure_section_def ssh_section_def network_section_def wireguard_section_def
      tags_section_def ebind_Inr split: if_splits)

lemma lines_not_dict:
  assumes "\<not> is_dict c" and "yaml_to_tfvars_lines c = Inr ls"
  shows "ls = comment_header @ ['''']"
proof -
  from assms(2) obtain l1 l2 l3 l4 where
    "azure_section c (comment_header @ ['''']) = Inr l1" "ssh_section c l1 = Inr l2"
    "network_section c l2 = Inr l3" "wireguard_section c l3 = Inr l4" "tags_section c l4 = Inr ls"
    by (auto simp: yaml_to_tfvars_lines_def ebind_Inr)
  with section_not_dict [OF assms(1)] show ?thesis by metis
qed

text \<open>
  Claim C4. The output is a function of the whitelisted fields alone: removing from a
  document every top-level key that is not one of the five groups and, inside the groups
  \<open>azure\<close>, \<open>ssh\<close>, \<open>network\<close> and \<open>wireguard\<close>, every key that is not whitelisted (\<open>tags\<close>
  is whitelisted as a whole) changes neither the output nor the exception raised. And
  every line of the output is a line of the comment header, an empty line, or the line
  \<open>identifier = value\<close> of a whitelisted field of the document.
\<close>

theorem output_depends_on_whitelist_only:
  "yaml_to_tfvars (whitelisted_part config) = yaml_to_tfvars config
   \<and> (\<forall>ls. yaml_to_tfvars_lines config = Inr ls \<longrightarrow>
        (\<forall>l \<in> set ls. l \<in> set comment_header \<or> l = [] \<or>
           (\<exists>p \<in> set whitelist. \<exists>v. lookup_path config p = Some v
              \<and> l = emitted_name p @ '' = '' @ to_hcl_value v 0)))"
proof (intro conjI allI impI ballI)
  show "yaml_to_tfvars (whitelisted_part config) = yaml_to_tfvars config"
    by (simp only: yaml_to_tfvars_def lines_whitelisted)
next
  fix ls l
  assume ls: "yaml_to_tfvars_lines config = Inr ls" and l: "l \<in> set ls"
  show "l \<in> set comment_header \<or> l = [] \<or>
           (\<exists>p \<in> set whitelist. \<exists>v. lookup_path config p = Some v
              \<and> l = emitted_name p @ '' = '' @ to_hcl_value v 0)"
  proof (cases "is_dict config")
    case False
    from lines_not_dict [OF False ls] l show ?thesis by auto
  next
    case True
    then obtain d where d: "config = VDict d" by (cases config) simp_all
    have "well_shaped config"
      using yaml_to_tfvars_lines_ill_shaped [of d] ls d by auto
    from lines_origin [OF this ls l] field_line_cases show ?thesis by blast
  qed
qed

theorem output_depends_on_whitelist_only_witness:
  "yaml_to_tfvars
     (VDict [(KStr ''azure'', VDict [(KStr ''use_static_ip'', VBool False)])])
   = yaml_to_tfvars
       (VDict [(KStr ''azure'', VDict [(KStr ''use_static_ip'', VBool False), (KStr ''junk'', VInt 3)]),
               (KStr ''caddy'', VDict [(KStr ''location'', VStr ''x'')])])
   \<and> yaml_to_tfvars_lines
       (VDict [(KStr ''azure'', VDict [(KStr ''use_static_ip'', VBool False), (KStr ''junk'', VInt 3)]),
               (KStr ''caddy'', VDict [(KStr ''location'', VStr ''x'')])])
     = Inr (comment_header @ ['''', ''use_static_ip = false'', ''''])
   \<and> (\<exists>p \<in> set whitelist. \<exists>v.
         lookup_path
           (VDict [(KStr ''azure'', VDict [(KStr ''use_static_ip'', VBool False), (KStr ''junk'', VInt 3)]),
                   (KStr ''caddy'', VDict [(KStr ''location'', VStr ''x'')])]) p = Some v
         \<and> ''use_static_ip = false'' = emitted_name p @ '' = '' @ to_hcl_value v 0)"
proof -
  let ?cfg = "VDict [(KStr ''azure'', VDict [(KStr ''use_static_ip'', VBool False), (KStr ''junk'', VInt 3)]),
               (KStr ''caddy'', VDict [(KStr ''location'', VStr ''x'')])]"
  have e: "whitelisted_part ?cfg = VDict [(KStr ''azure'', VDict [(KStr ''use_static_ip'', VBool False)])]"
    by code_simp
  have ls: "yaml_to_tfvars_lines ?cfg = Inr (comment_header @ ['''', ''use_static_ip = false'', ''''])"
    by code_simp
  have n: "''use_static_ip = false'' \<notin> set comment_header" by (simp add: comment_header_def)
  from output_depends_on_whitelist_only [of ?cfg] e ls n show ?thesis by auto
qed

section \<open>Properties of the driver\<close>

lemma status_ended: "status (ended i s) = s"
  by (simp add: ended_def)

lemma status_finish_ebind:
  "status (finish (ebind m f)) = (case m of Inl r \<Rightarrow> status r | Inr i \<Rightarrow> status (finish (f i)))"
  by (cases m) simp_all

lemma print_each_eq:
  "print_each e xs i =
     (if list_all (stderr_ok e) xs then Inr (i\<lparr>stderr := stderr i @ xs\<rparr>)
      else Inl (ended (i\<lparr>stderr := stderr i @ takeWhile (stderr_ok e) xs\<rparr>)
                  (Uncaught OtherException)))"
  by (induction xs arbitrary: i) (simp_all add: print_stderr_def raise_def)

lemma convert_raises:
  "output_raises a e c \<Longrightarrow> \<exists>ex. status (finish (convert a e c i)) = Uncaught ex"
  by (auto simp: output_raises_def convert_def write_output_def output_given_def raise_def
      print_stdout_def print_stderr_def write_file_def status_ended
      split: sum.splits option.splits if_splits)

lemma convert_returns:
  assumes "\<not> output_raises a e c"
  shows "\<exists>t. yaml_to_tfvars c = Inr t \<and>
     finish (convert a e c i) =
       (if output_given a
        then ended (i\<lparr>written := Some (the (output_file a), t),
                       stderr := stderr i @ [''Generated: '' @ the (output_file a)]\<rparr>) Returned
        else ended (i\<lparr>stdout := stdout i @ [t]\<rparr>) Returned)"
  using assms
  by (auto simp: output_raises_def convert_def write_output_def output_given_def raise_def
      print_stdout_def print_stderr_def write_file_def status_ended
      split: sum.splits option.splits if_splits)

lemma convert_status:
  "\<not> output_raises a e c \<Longrightarrow> status (finish (convert a e c i)) = Returned"
  using convert_returns [of a e c i] by (auto simp: status_ended)

lemma script_uncaught:
  "(\<exists>ex. status (script e) = Uncaught ex) \<longleftrightarrow> exception_escapes e"
proof (cases "yaml_installed e")
  case False
  then show ?thesis
    by (simp add: script_def exception_escapes_def print_stderr_def sys_exit_def raise_def
        status_ended)
next
  case True
  show ?thesis
  proof (cases "cmdline e")
    case (Parsed a)
    show ?thesis
    proof (cases "load e")
      case (Loaded c)
      show ?thesis
      proof (cases "validate_config c")
        case (Inl ex)
        with True Parsed Loaded show ?thesis
          by (simp add: script_def main_def exception_escapes_def raise_def status_ended)
      next
        case (Inr errs)
        show ?thesis
        proof (cases "output_raises a e c")
          case r: True
          from convert_raises [OF r] True Parsed Loaded Inr r show ?thesis
            by (auto simp: script_def main_def exception_escapes_def raise_def status_ended
                print_stderr_def print_stdout_def sys_exit_def print_each_eq)
        next
          case r: False
          from convert_status [OF r] True Parsed Loaded Inr r show ?thesis
            by (auto simp: script_def main_def exception_escapes_def raise_def status_ended
                print_stderr_def print_stdout_def sys_exit_def print_each_eq)
        qed
      qed
    qed (use True Parsed in \<open>simp_all add: script_def main_def exception_escapes_def
          print_stderr_def sys_exit_def raise_def status_ended\<close>)
  qed (use True in \<open>simp_all add: script_def main_def exception_escapes_def
          sys_exit_def raise_def status_ended\<close>)
qed

lemma script_caught:
  assumes "\<not> exception_escapes e"
  shows "status (script e) =
     (if \<not> yaml_installed e then SysExit 1
      else case cmdline e of
        UsageError \<Rightarrow> SysExit 2
      | HelpRequested \<Rightarrow> SysExit 0
      | ParseRaised \<Rightarrow> Returned
      | Parsed a \<Rightarrow>
         (case load e of
            FileNotFoundError \<Rightarrow> SysExit 1
          | YAMLError msg \<Rightarrow> SysExit 1
          | OtherLoadError \<Rightarrow> Returned
          | Loaded c \<Rightarrow>
              (case validate_config c of
                 Inl ex \<Rightarrow> Returned
               | Inr errs \<Rightarrow>
                   if validate a then (if errs \<noteq> [] then SysExit 1 else SysExit 0)
                   else Returned)))"
proof (cases "yaml_installed e")
  case False
  with assms show ?thesis
    by (simp add: script_def exception_escapes_def print_stderr_def sys_exit_def raise_def
        status_ended)
next
  case True
  show ?thesis
  proof (cases "cmdline e")
    case (Parsed a)
    show ?thesis
    proof (cases "load e")
      case (Loaded c)
      show ?thesis
      proof (cases "validate_config c")
        case (Inl ex)
        with assms True Parsed Loaded show ?thesis
          by (simp add: exception_escapes_def)
      next
        case (Inr errs)
        show ?thesis
        proof (cases "output_raises a e c")
          case r: True
          with assms True Parsed Loaded Inr show ?thesis
            by (auto simp: script_def main_def exception_escapes_def raise_def status_ended
                print_stderr_def print_stdout_def sys_exit_def print_each_eq split: if_splits)
        next
          case r: False
          from convert_status [OF r] assms True Parsed Loaded Inr r show ?thesis
            by (auto simp: script_def main_def exception_escapes_def raise_def status_ended
                print_stderr_def print_stdout_def sys_exit_def print_each_eq split: if_splits)
        qed
      qed
    qed (use assms True Parsed in \<open>auto simp: script_def main_def exception_escapes_def
          print_stderr_def sys_exit_def raise_def status_ended\<close>)
  qed (use assms True in \<open>simp_all add: script_def main_def exception_escapes_def
          sys_exit_def raise_def status_ended\<close>)
qed

lemma valid_doc_validates:
  "validate_config
     (VDict [(KStr ''ssh'',
        VDict [(KStr ''admin_username'', VStr ''deploy''),
               (KStr ''allowed_ipv4'', VStr ''1.2.3.4/32'')])]) = Inr []"
  by (simp add: validate_config_def default_names_def is_placeholder_def ends_with_def)

lemma root_doc_validates:
  "validate_config
     (VDict [(KStr ''ssh'',
        VDict [(KStr ''admin_username'', VStr ''root''),
               (KStr ''allowed_ipv4'', VStr ''1.2.3.4/32'')])])
   = Inr [''  - ssh.admin_username: cannot be a common default name'']"
  by (simp add: validate_config_def default_names_def is_placeholder_def ends_with_def)

lemma root_doc_converts:
  "\<exists>t. yaml_to_tfvars
     (VDict [(KStr ''ssh'',
        VDict [(KStr ''admin_username'', VStr ''root''),
               (KStr ''allowed_ipv4'', VStr ''1.2.3.4/32'')])]) = Inr t"
proof -
  have "well_shaped (VDict [(KStr ''ssh'',
        VDict [(KStr ''admin_username'', VStr ''root''),
               (KStr ''allowed_ipv4'', VStr ''1.2.3.4/32'')])])"
    by (simp add: well_shaped_def group_ok_def)
  from yaml_to_tfvars_lines_well_shaped [OF this] show ?thesis
    by (simp add: yaml_to_tfvars_def)
qed

lemma all_ok_sel:
  "yaml_installed (all_ok a l)" "cmdline (all_ok a l) = Parsed a" "load (all_ok a l) = l"
  "stdout_ok (all_ok a l) s" "stderr_ok (all_ok a l) s" "file_ok (all_ok a l) path s"
  "flush_ok (all_ok a l)"
  by (simp_all add: all_ok_def)

text \<open>
  Claim C8, as stated, fails: an empty input file loads as \<open>None\<close>, the validator raises
  on it, nothing catches the exception and the process ends with status 1, although the
  file was found, the document was parsed and validate-only mode was not requested.
\<close>

theorem empty_document_exits_1:
  "exit_status
     \<lparr>yaml_installed = True,
      cmdline = Parsed \<lparr>config_file = ''config.yml'', output_file = None, validate = False\<rparr>,
      load = Loaded VNone, stdout_ok = (\<lambda>s. True), stderr_ok = (\<lambda>s. True),
      file_ok = (\<lambda>path s. True), flush_ok = True\<rparr>
     (script
       \<lparr>yaml_installed = True,
        cmdline = Parsed \<lparr>config_file = ''config.yml'', output_file = None, validate = False\<rparr>,
        load = Loaded VNone, stdout_ok = (\<lambda>s. True), stderr_ok = (\<lambda>s. True),
        file_ok = (\<lambda>path s. True), flush_ok = True\<rparr>) = 1
   \<and> validate_config VNone = Inl AttributeError"
  by (simp add: exit_status_def script_def main_def validate_config_def raise_def ended_def)

text \<open>
  Claim C8, amended. When the final flush of the standard streams fails, the exit status
  is 120. Otherwise it is 2 exactly when PyYAML is installed and \<^verbatim>\<open>argparse\<close> rejects the
  command line, and it is 1 exactly when PyYAML is not installed, or the command line is
  parsed and the input file is not found, the document fails to parse, or validate-only
  mode is requested and the validator returns a non-empty list, or an exception escapes
  uncaught (\<^verbatim>\<open>parse_args\<close> raises, the load raises an exception other than the two that are
  caught, the validator raises, in normal mode the converter raises or the output cannot
  be written or printed, or a \<^verbatim>\<open>print\<close> on the way raises); it is 0, 1, 2 or 120 in every
  run. In validate-only mode on a document for which the validator returns the empty
  list, when the success message can be printed, the driver prints
  \<^verbatim>\<open>Configuration is valid.\<close>, writes no converted output and ends with \<^verbatim>\<open>sys.exit(0)\<close>. In
  normal mode, when the validator returns its list and no exception escapes, the problems
  are printed to the error stream, the converted text is printed or written, and the
  script runs to its end, which gives the exit status 0 when the final flush succeeds.
\<close>

theorem exit_status_characterised:
  "(exit_status e (script e) = 120 \<longleftrightarrow> \<not> flush_ok e)
   \<and> (flush_ok e \<longrightarrow>
        (exit_status e (script e) = 2 \<longleftrightarrow> yaml_installed e \<and> cmdline e = UsageError))
   \<and> (flush_ok e \<longrightarrow>
        (exit_status e (script e) = 1 \<longleftrightarrow>
           \<not> yaml_installed e
           \<or> (\<exists>a. cmdline e = Parsed a \<and>
                 (load e = FileNotFoundError \<or> (\<exists>msg. load e = YAMLError msg)
                  \<or> (\<exists>c errs. load e = Loaded c \<and> validate_config c = Inr errs
                        \<and> errs \<noteq> [] \<and> validate a)))
           \<or> exception_escapes e))
   \<and> exit_status e (script e) \<in> {0, 1, 2, 120}
   \<and> (exception_escapes e \<longleftrightarrow> (\<exists>ex. status (script e) = Uncaught ex))
   \<and> (yaml_installed e \<and> cmdline e = Parsed a \<and> validate a \<and> load e = Loaded c
        \<and> validate_config c = Inr [] \<and> stdout_ok e ''Configuration is valid.'' \<longrightarrow>
        script e = \<lparr>stdout = [''Configuration is valid.''], stderr = [],
                     written = None, status = SysExit 0\<rparr>)
   \<and> (yaml_installed e \<and> cmdline e = Parsed a \<and> \<not> validate a \<and> load e = Loaded c
        \<and> validate_config c = Inr errs \<and> \<not> exception_escapes e \<longrightarrow>
        (\<exists>t. yaml_to_tfvars c = Inr t
           \<and> status (script e) = Returned
           \<and> set errs \<subseteq> set (stderr (script e))
           \<and> (if output_given a
               then written (script e) = Some (the (output_file a), t) \<and> stdout (script e) = []
               else stdout (script e) = [t] \<and> written (script e) = None)))"
proof -
  let ?S = "status (script e)"
  have esc: "exception_escapes e \<longleftrightarrow> (\<exists>ex. ?S = Uncaught ex)"
    by (simp only: script_uncaught)
  have st: "(\<exists>ex. ?S = Uncaught ex) \<or> ?S = Returned \<or> ?S = SysExit 0 \<or> ?S = SysExit 1
      \<or> ?S = SysExit 2"
  proof (cases "exception_escapes e")
    case True
    with esc show ?thesis by simp
  next
    case False
    from script_caught [OF False] show ?thesis
      by (auto split: parse_result.splits load_result.splits sum.splits if_splits)
  qed
  have p1: "exit_status e (script e) = 120 \<longleftrightarrow> \<not> flush_ok e"
    using st by (auto simp: exit_status_def)
  have p2: "flush_ok e \<longrightarrow>
        (exit_status e (script e) = 2 \<longleftrightarrow> yaml_installed e \<and> cmdline e = UsageError)"
  proof (cases "exception_escapes e")
    case True
    then obtain ex where "?S = Uncaught ex" using esc by blast
    moreover from True have "\<not> (yaml_installed e \<and> cmdline e = UsageError)"
      by (auto simp: exception_escapes_def)
    ultimately show ?thesis by (simp add: exit_status_def)
  next
    case False
    from script_caught [OF False] show ?thesis
      by (auto simp: exit_status_def split: parse_result.splits load_result.splits sum.splits
          if_splits)
  qed
  have p3: "flush_ok e \<longrightarrow>
        (exit_status e (script e) = 1 \<longleftrightarrow>
           \<not> yaml_installed e
           \<or> (\<exists>a. cmdline e = Parsed a \<and>
                 (load e = FileNotFoundError \<or> (\<exists>msg. load e = YAMLError msg)
                  \<or> (\<exists>c errs. load e = Loaded c \<and> validate_config c = Inr errs
                        \<and> errs \<noteq> [] \<and> validate a)))
           \<or> exception_escapes e)"
  proof (cases "exception_escapes e")
    case True
    then obtain ex where "?S = Uncaught ex" using esc by blast
    with True show ?thesis by (simp add: exit_status_def)
  next
    case False
    from script_caught [OF False] False show ?thesis
      by (auto simp: exit_status_def split: parse_result.splits load_result.splits sum.splits
          if_splits)
  qed
  have p4: "exit_status e (script e) \<in> {0, 1, 2, 120}"
    using st by (auto simp: exit_status_def)
  have p6: "yaml_installed e \<and> cmdline e = Parsed a \<and> validate a \<and> load e = Loaded c
        \<and> validate_config c = Inr [] \<and> stdout_ok e ''Configuration is valid.'' \<longrightarrow>
        script e = \<lparr>stdout = [''Configuration is valid.''], stderr = [],
                     written = None, status = SysExit 0\<rparr>"
    by (simp add: script_def main_def print_stdout_def sys_exit_def ended_def start_def)
  have p7: "yaml_installed e \<and> cmdline e = Parsed a \<and> \<not> validate a \<and> load e = Loaded c
        \<and> validate_config c = Inr errs \<and> \<not> exception_escapes e \<longrightarrow>
        (\<exists>t. yaml_to_tfvars c = Inr t
           \<and> status (script e) = Returned
           \<and> set errs \<subseteq> set (stderr (script e))
           \<and> (if output_given a
               then written (script e) = Some (the (output_file a), t) \<and> stdout (script e) = []
               else stdout (script e) = [t] \<and> written (script e) = None))"
  proof
    assume h: "yaml_installed e \<and> cmdline e = Parsed a \<and> \<not> validate a \<and> load e = Loaded c
        \<and> validate_config c = Inr errs \<and> \<not> exception_escapes e"
    show "\<exists>t. yaml_to_tfvars c = Inr t
           \<and> status (script e) = Returned
           \<and> set errs \<subseteq> set (stderr (script e))
           \<and> (if output_given a
               then written (script e) = Some (the (output_file a), t) \<and> stdout (script e) = []
               else stdout (script e) = [t] \<and> written (script e) = None)"
    proof (cases "errs = []")
      case True
      with h have r: "\<not> output_raises a e c" by (auto simp: exception_escapes_def)
      from convert_returns [OF r, of start] obtain t where
        t: "yaml_to_tfvars c = Inr t" and
        f: "finish (convert a e c start) =
         (if output_given a
          then ended (start\<lparr>written := Some (the (output_file a), t),
                         stderr := stderr start @ [''Generated: '' @ the (output_file a)]\<rparr>) Returned
          else ended (start\<lparr>stdout := stdout start @ [t]\<rparr>) Returned)"
        by blast
      from h True have "script e = finish (convert a e c start)"
        by (simp add: script_def main_def)
      with f t True show ?thesis by (simp add: ended_def start_def)
    next
      case False
      let ?i = "start\<lparr>stderr := ''Configuration errors:'' # errs
                  @ [CHR 0x0A # ''Continuing anyway (Terraform will also validate)...'']\<rparr>"
      from h False have r: "\<not> output_raises a e c"
        and ok: "stderr_ok e ''Configuration errors:''" "list_all (stderr_ok e) errs"
          "stderr_ok e (CHR 0x0A # ''Continuing anyway (Terraform will also validate)...'')"
        by (auto simp: exception_escapes_def)
      from convert_returns [OF r, of ?i] obtain t where
        t: "yaml_to_tfvars c = Inr t" and
        f: "finish (convert a e c ?i) =
         (if output_given a
          then ended (?i\<lparr>written := Some (the (output_file a), t),
                         stderr := stderr ?i @ [''Generated: '' @ the (output_file a)]\<rparr>) Returned
          else ended (?i\<lparr>stdout := stdout ?i @ [t]\<rparr>) Returned)"
        by blast
      from h False ok have "script e = finish (convert a e c ?i)"
        by (simp add: script_def main_def print_stderr_def print_each_eq start_def)
      with f t show ?thesis by (auto simp: ended_def start_def)
    qed
  qed
  show ?thesis
    by (rule conjI [OF p1 conjI [OF p2 conjI [OF p3 conjI [OF p4 conjI [OF esc conjI [OF p6 p7]]]]]])
qed

theorem exit_status_characterised_witness:
  "script (all_ok \<lparr>config_file = ''config.yml'', output_file = None, validate = True\<rparr>
        (Loaded (VDict [(KStr ''ssh'',
            VDict [(KStr ''admin_username'', VStr ''deploy''),
                   (KStr ''allowed_ipv4'', VStr ''1.2.3.4/32'')])])))
   = \<lparr>stdout = [''Configuration is valid.''], stderr = [], written = None, status = SysExit 0\<rparr>
   \<and> status (script (all_ok \<lparr>config_file = ''config.yml'', output_file = None, validate = False\<rparr>
        (Loaded (VDict [(KStr ''ssh'',
            VDict [(KStr ''admin_username'', VStr ''root''),
                   (KStr ''allowed_ipv4'', VStr ''1.2.3.4/32'')])])))) = Returned
   \<and> ''  - ssh.admin_username: cannot be a common default name''
       \<in> set (stderr (script (all_ok \<lparr>config_file = ''config.yml'', output_file = None, validate = False\<rparr>
        (Loaded (VDict [(KStr ''ssh'',
            VDict [(KStr ''admin_username'', VStr ''root''),
                   (KStr ''allowed_ipv4'', VStr ''1.2.3.4/32'')])])))))
   \<and> exit_status
        (all_ok \<lparr>config_file = ''config.yml'', output_file = None, validate = True\<rparr>
          (Loaded (VDict [(KStr ''ssh'',
            VDict [(KStr ''admin_username'', VStr ''root''),
                   (KStr ''allowed_ipv4'', VStr ''1.2.3.4/32'')])])))
        (script (all_ok \<lparr>config_file = ''config.yml'', output_file = None, validate = True\<rparr>
          (Loaded (VDict [(KStr ''ssh'',
            VDict [(KStr ''admin_username'', VStr ''root''),
                   (KStr ''allowed_ipv4'', VStr ''1.2.3.4/32'')])])))) = 1
   \<and> exit_status
        ((all_ok \<lparr>config_file = ''config.yml'', output_file = None, validate = False\<rparr>
           FileNotFoundError)\<lparr>cmdline := UsageError\<rparr>)
        (script ((all_ok \<lparr>config_file = ''config.yml'', output_file = None, validate = False\<rparr>
           FileNotFoundError)\<lparr>cmdline := UsageError\<rparr>)) = 2
   \<and> exit_status
        ((all_ok \<lparr>config_file = ''config.yml'', output_file = None, validate = False\<rparr>
           (Loaded (VDict [(KStr ''ssh'',
            VDict [(KStr ''admin_username'', VStr ''deploy''),
                   (KStr ''allowed_ipv4'', VStr ''1.2.3.4/32'')])])))\<lparr>stdout_ok := \<lambda>s. False\<rparr>)
        (script ((all_ok \<lparr>config_file = ''config.yml'', output_file = None, validate = False\<rparr>
           (Loaded (VDict [(KStr ''ssh'',
            VDict [(KStr ''admin_username'', VStr ''deploy''),
                   (KStr ''allowed_ipv4'', VStr ''1.2.3.4/32'')])])))\<lparr>stdout_ok := \<lambda>s. False\<rparr>)) = 1
   \<and> exit_status
        ((all_ok \<lparr>config_file = ''config.yml'', output_file = None, validate = False\<rparr>
           FileNotFoundError)\<lparr>flush_ok := False\<rparr>)
        (script ((all_ok \<lparr>config_file = ''config.yml'', output_file = None, validate = False\<rparr>
           FileNotFoundError)\<lparr>flush_ok := False\<rparr>)) = 120"
proof -
  let ?valid = "VDict [(KStr ''ssh'',
            VDict [(KStr ''admin_username'', VStr ''deploy''),
                   (KStr ''allowed_ipv4'', VStr ''1.2.3.4/32'')])]"
  let ?root = "VDict [(KStr ''ssh'',
            VDict [(KStr ''admin_username'', VStr ''root''),
                   (KStr ''allowed_ipv4'', VStr ''1.2.3.4/32'')])]"
  let ?check = "\<lparr>config_file = ''config.yml'', output_file = None, validate = True\<rparr>"
  let ?normal = "\<lparr>config_file = ''config.yml'', output_file = None, validate = False\<rparr>"
  let ?problem = "''  - ssh.admin_username: cannot be a common default name''"
  from root_doc_converts obtain t where t: "yaml_to_tfvars ?root = Inr t" by blast
  have og: "\<not> output_given ?normal" by (simp add: output_given_def)
  have ne: "\<not> exception_escapes (all_ok ?normal (Loaded ?root))"
    using root_doc_validates t
    by (simp add: exception_escapes_def output_raises_def all_ok_sel og)
  have esc: "exception_escapes ((all_ok ?normal (Loaded ?valid))\<lparr>stdout_ok := \<lambda>s. False\<rparr>)"
    using valid_doc_validates
    by (cases "yaml_to_tfvars ?valid")
      (simp_all add: exception_escapes_def output_raises_def all_ok_sel og)
  from exit_status_characterised [of "all_ok ?check (Loaded ?valid)" ?check ?valid]
      valid_doc_validates
  have a: "script (all_ok ?check (Loaded ?valid))
     = \<lparr>stdout = [''Configuration is valid.''], stderr = [], written = None, status = SysExit 0\<rparr>"
    by (simp add: all_ok_sel)
  from exit_status_characterised
        [of "all_ok ?normal (Loaded ?root)" ?normal ?root "[?problem]"]
      root_doc_validates ne
  have b: "status (script (all_ok ?normal (Loaded ?root))) = Returned
      \<and> ?problem \<in> set (stderr (script (all_ok ?normal (Loaded ?root))))"
    by (auto simp: all_ok_sel)
  from exit_status_characterised [of "all_ok ?check (Loaded ?root)"]
      root_doc_validates
  have c: "exit_status (all_ok ?check (Loaded ?root)) (script (all_ok ?check (Loaded ?root))) = 1"
    by (simp add: all_ok_sel)
  from exit_status_characterised [of "(all_ok ?normal FileNotFoundError)\<lparr>cmdline := UsageError\<rparr>"]
  have d: "exit_status ((all_ok ?normal FileNotFoundError)\<lparr>cmdline := UsageError\<rparr>)
            (script ((all_ok ?normal FileNotFoundError)\<lparr>cmdline := UsageError\<rparr>)) = 2"
    by (simp add: all_ok_sel)
  from exit_status_characterised [of "(all_ok ?normal (Loaded ?valid))\<lparr>stdout_ok := \<lambda>s. False\<rparr>"]
      esc
  have f: "exit_status ((all_ok ?normal (Loaded ?valid))\<lparr>stdout_ok := \<lambda>s. False\<rparr>)
            (script ((all_ok ?normal (Loaded ?valid))\<lparr>stdout_ok := \<lambda>s. False\<rparr>)) = 1"
    by (simp add: all_ok_sel)
  from exit_status_characterised [of "(all_ok ?normal FileNotFoundError)\<lparr>flush_ok := False\<rparr>"]
  have g: "exit_status ((all_ok ?normal FileNotFoundError)\<lparr>flush_ok := False\<rparr>)
            (script ((all_ok ?normal FileNotFoundError)\<lparr>flush_ok := False\<rparr>)) = 120"
    by (simp add: all_ok_sel)
  from a b c d f g show ?thesis by (simp only: simp_thms)
qed

section \<open>Reading renderings back\<close>



































end
